theory Spec2Isabelle
  imports Complex_Main
begin

section \<open>Voxel Draw: the gesture and voxel-grid core of \<open>src/App.tsx\<close>\<close>

text \<open>
  The callback \<open>onResults\<close> of \<open>App.tsx\<close> receives, once per camera frame, the hands
  that the landmark model detected and updates four mutable references:
  \<open>voxelsRef\<close> (a \<open>Set<string>\<close> of keys \<open>"gx,gy"\<close>), \<open>fistStartTimeRef\<close>,
  \<open>isGrabbingRef\<close> and \<open>lastHandPosRef\<close>. The embedding below passes these four
  references as a record and follows the callback statement by statement. Drawing on
  the canvas context changes none of the four references and is left out.

  Numbers: a JavaScript number is an IEEE 754 double. A finite double is a real
  number, and every arithmetic operation of the callback on landmark coordinates and
  pixel positions returns the exact result rounded to the nearest double, ties to
  even; the model rounds in the same places (\<open>fl\<close> below). Grid indices and shift
  amounts (the results of \<open>Math.floor\<close> and \<open>Math.round\<close>, and the numbers read back
  from keys) are \<open>int\<close>, and \<open>Date.now()\<close> is an \<open>int\<close> of milliseconds: integer
  arithmetic on doubles is exact below \<open>2^53\<close>. Infinities and \<open>NaN\<close> among the
  coordinates are outside the model; the landmark source delivers coordinates in
  \<open>[0, 1]\<close>, far from overflow.
\<close>

subsection \<open>Double-precision arithmetic\<close>

text \<open>
  The binade of a non-zero real is the exponent \<open>e\<close> with \<open>2^e \<le> |x| < 2^(e+1)\<close>. A
  double has 53 significant bits, so near \<open>x\<close> the doubles are the multiples of
  \<open>ulp x = 2^(e - 52)\<close>; below \<open>2^(-1022)\<close>, in the subnormal range, the spacing
  stays \<open>2^(-1074)\<close>.
\<close>

definition binade :: "real \<Rightarrow> int" where
  "binade x = \<lfloor>log 2 \<bar>x\<bar>\<rfloor>"

definition ulp :: "real \<Rightarrow> real" where
  "ulp x = 2 powi (max (binade x) (- 1022) - 52)"

definition roundTiesToEven :: "real \<Rightarrow> int" where
  "roundTiesToEven r =
     (let f = \<lfloor>r\<rfloor>; d = r - of_int f
      in if d < 1 / 2 then f
         else if 1 / 2 < d then f + 1
         else if even f then f else f + 1)"

text \<open>The double nearest to a real; a decimal literal of the source denotes \<open>fl\<close> of it.\<close>

definition fl :: "real \<Rightarrow> real" where
  "fl x = (if x = 0 then 0 else of_int (roundTiesToEven (x / ulp x)) * ulp x)"

text \<open>
  The operators \<open>-\<close>, \<open>+\<close>, \<open>*\<close> and \<open>/\<close> on numbers, \<open>Math.pow(a, 2)\<close> and
  \<open>Math.sqrt\<close>. The language leaves the precision of the last two to the engine;
  they are taken correctly rounded, as in V8, where \<open>Math.pow(a, 2)\<close> is \<open>a * a\<close> and
  \<open>Math.sqrt\<close> is the hardware square root. The only divisor in the callback is
  \<open>gridSize\<close>.
\<close>

definition dsub :: "real \<Rightarrow> real \<Rightarrow> real" where
  "dsub a b = fl (a - b)"

definition dadd :: "real \<Rightarrow> real \<Rightarrow> real" where
  "dadd a b = fl (a + b)"

definition dmul :: "real \<Rightarrow> real \<Rightarrow> real" where
  "dmul a b = fl (a * b)"

definition ddiv :: "real \<Rightarrow> real \<Rightarrow> real" where
  "ddiv a b = fl (a / b)"

definition dpow2 :: "real \<Rightarrow> real" where
  "dpow2 a = fl (a * a)"

definition dsqrt :: "real \<Rightarrow> real" where
  "dsqrt a = fl (sqrt a)"

subsection \<open>Numbers inside voxel keys\<close>

text \<open>
  A key is built by the template \<open>`${gx},${gy}`\<close> and read back by
  \<open>key.split(',').map(Number)\<close>. What is read back is a JavaScript number again, which
  may be \<open>NaN\<close>; \<open>jsnum\<close> is an integer-valued number or \<open>NaN\<close>.
\<close>

datatype jsnum = JsInt int | JsNaN

text \<open>\<open>gx + shiftX\<close>: adding to \<open>NaN\<close> gives \<open>NaN\<close>.\<close>

fun jsAdd :: "jsnum \<Rightarrow> int \<Rightarrow> jsnum" where
  "jsAdd (JsInt n) k = JsInt (n + k)"
| "jsAdd JsNaN k = JsNaN"

definition digitChar :: "nat \<Rightarrow> char" where
  "digitChar d = ''0123456789'' ! d"

definition isDigit :: "char \<Rightarrow> bool" where
  "isDigit c = (c \<in> set ''0123456789'')"

definition digitVal :: "char \<Rightarrow> nat" where
  "digitVal c = of_char c - 48"

text \<open>The decimal digits of a natural number, most significant first.\<close>

fun natToString :: "nat \<Rightarrow> string" where
  "natToString n =
     (if n < 10 then [digitChar n]
      else natToString (n div 10) @ [digitChar (n mod 10)])"

declare natToString.simps [simp del]

text \<open>
  What a template literal prints for a number (\<open>ToString\<close>): \<open>NaN\<close> prints as
  \<open>"NaN"\<close>, an integer as its decimal digits with a leading \<open>-\<close> when negative.
\<close>

fun numToString :: "jsnum \<Rightarrow> string" where
  "numToString JsNaN = ''NaN''"
| "numToString (JsInt n) =
     (if n < 0 then CHR ''-'' # natToString (nat (- n)) else natToString (nat n))"

definition digitsVal :: "string \<Rightarrow> nat" where
  "digitsVal ds = foldl (\<lambda>acc c. 10 * acc + digitVal c) 0 ds"

text \<open>
  \<open>Number(s)\<close> on the strings that matter here: the empty string is \<open>0\<close>, an optional
  sign followed by decimal digits is that integer. Every other string is mapped to
  \<open>JsNaN\<close>. JavaScript's \<open>Number\<close> also accepts surrounding white space, fractions,
  exponents, \<open>0x\<close>/\<open>0o\<close>/\<open>0b\<close> literals and \<open>Infinity\<close>; no key that the program
  writes has one of these forms (lemma \<open>processHand_wellFormed\<close> below), and no
  statement of this theory is about such a key.
\<close>

definition Number :: "string \<Rightarrow> jsnum" where
  "Number s =
     (case s of
        [] \<Rightarrow> JsInt 0
      | c # cs \<Rightarrow>
          if c = CHR ''-'' then
            (if cs \<noteq> [] \<and> list_all isDigit cs then JsInt (- int (digitsVal cs)) else JsNaN)
          else if c = CHR ''+'' then
            (if cs \<noteq> [] \<and> list_all isDigit cs then JsInt (int (digitsVal cs)) else JsNaN)
          else if list_all isDigit s then JsInt (int (digitsVal s))
          else JsNaN)"

text \<open>\<open>key.split(',')\<close>: the pieces between commas; never the empty array.\<close>

fun splitComma :: "string \<Rightarrow> string list" where
  "splitComma [] = [[]]"
| "splitComma (c # cs) =
     (if c = CHR '','' then [] # splitComma cs
      else (case splitComma cs of
              [] \<Rightarrow> [[c]]
            | w # ws \<Rightarrow> (c # w) # ws))"

text \<open>
  \<open>const [gx, gy] = key.split(',').map(Number)\<close>. A missing second piece leaves \<open>gy\<close>
  \<open>undefined\<close>, and \<open>undefined + shiftY\<close> is \<open>NaN\<close>; the model gives \<open>JsNaN\<close> at once.
\<close>

definition parseKey :: "string \<Rightarrow> jsnum \<times> jsnum" where
  "parseKey key =
     (case map Number (splitComma key) of
        [] \<Rightarrow> (JsNaN, JsNaN)
      | [gx] \<Rightarrow> (gx, JsNaN)
      | gx # gy # _ \<Rightarrow> (gx, gy))"

text \<open>The template \<open>`${gx},${gy}`\<close>.\<close>

definition template :: "jsnum \<Rightarrow> jsnum \<Rightarrow> string" where
  "template gx gy = numToString gx @ '','' @ numToString gy"

definition voxelKey :: "int \<Rightarrow> int \<Rightarrow> string" where
  "voxelKey gx gy = template (JsInt gx) (JsInt gy)"

text \<open>
  A key is well formed when it is the key of an integer cell: it parses to two
  integers and printing them gives the key back.
\<close>

definition wellFormedKey :: "string \<Rightarrow> bool" where
  "wellFormedKey key =
     (case parseKey key of
        (JsInt gx, JsInt gy) \<Rightarrow> key = voxelKey gx gy
      | _ \<Rightarrow> False)"

subsection \<open>The voxel store\<close>

text \<open>
  Lines 157 to 162: a new set receives, for every key of the old one, the key of the
  shifted cell (\<open>shiftKey\<close>, the body of the inner \<open>forEach\<close>), and then replaces
  the old set.
\<close>

definition shiftKey :: "int \<Rightarrow> int \<Rightarrow> string \<Rightarrow> string" where
  "shiftKey shiftX shiftY key =
     (case parseKey key of
        (gx, gy) \<Rightarrow> template (jsAdd gx shiftX) (jsAdd gy shiftY))"

definition shiftAll :: "int \<Rightarrow> int \<Rightarrow> string set \<Rightarrow> string set" where
  "shiftAll shiftX shiftY vox = shiftKey shiftX shiftY ` vox"

text \<open>Line 182, \<open>voxelsRef.current.add(key)\<close>.\<close>

definition add :: "string \<Rightarrow> string set \<Rightarrow> string set" where
  "add key vox = insert key vox"

subsection \<open>Landmarks, canvas and the mutable references\<close>

datatype point = Point (px: real) (py: real)

record canvas =
  canvasWidth :: real
  canvasHeight :: real

record app_state =
  voxelsRef :: "string set"
  fistStartTimeRef :: "int option"
  isGrabbingRef :: bool
  lastHandPosRef :: "point option"

definition gridSize :: real where
  "gridSize = 40"

definition initialState :: app_state where
  "initialState =
     \<lparr>voxelsRef = {}, fistStartTimeRef = None, isGrabbingRef = False,
      lastHandPosRef = None\<rparr>"

datatype error = TypeError

definition getDistance :: "point \<Rightarrow> point \<Rightarrow> real" where
  "getDistance p1 p2 =
     dsqrt (dadd (dpow2 (dsub (px p1) (px p2))) (dpow2 (dsub (py p1) (py p2))))"

subsection \<open>Step 2 of the callback: coordinate mapping\<close>

definition mappedX :: "canvas \<Rightarrow> point list \<Rightarrow> real" where
  "mappedX cv landmarks = dmul (dsub 1 (px (landmarks ! 8))) (canvasWidth cv)"

definition mappedY :: "canvas \<Rightarrow> point list \<Rightarrow> real" where
  "mappedY cv landmarks = dmul (py (landmarks ! 8)) (canvasHeight cv)"

definition mappedWristX :: "canvas \<Rightarrow> point list \<Rightarrow> real" where
  "mappedWristX cv landmarks = dmul (dsub 1 (px (landmarks ! 0))) (canvasWidth cv)"

definition mappedWristY :: "canvas \<Rightarrow> point list \<Rightarrow> real" where
  "mappedWristY cv landmarks = dmul (py (landmarks ! 0)) (canvasHeight cv)"

subsection \<open>Step 3: gesture detection\<close>

text \<open>The constant \<open>dist\<close> of line 116, renamed since HOL has a \<open>dist\<close> of its own.\<close>

definition dist_pinch :: "point list \<Rightarrow> real" where
  "dist_pinch landmarks =
     dsqrt (dadd (dpow2 (dsub (px (landmarks ! 4)) (px (landmarks ! 8))))
                 (dpow2 (dsub (py (landmarks ! 4)) (py (landmarks ! 8)))))"

definition isPinching :: "point list \<Rightarrow> bool" where
  "isPinching landmarks = (dist_pinch landmarks < fl 0.04)"

definition fingerDists :: "point list \<Rightarrow> real list" where
  "fingerDists landmarks =
     [getDistance (landmarks ! 8) (landmarks ! 0),
      getDistance (landmarks ! 12) (landmarks ! 0),
      getDistance (landmarks ! 16) (landmarks ! 0),
      getDistance (landmarks ! 20) (landmarks ! 0)]"

definition isFist :: "point list \<Rightarrow> bool" where
  "isFist landmarks = list_all (\<lambda>d. d < fl 0.15) (fingerDists landmarks)"

subsection \<open>Step 4: the dwell timer, the grab and the stamp\<close>

text \<open>
  Lines 132 to 142. \<open>!fistStartTimeRef.current\<close> holds for \<open>null\<close> and also for the
  number \<open>0\<close>, which is falsy in JavaScript.
\<close>

definition fistLogic :: "int \<Rightarrow> bool \<Rightarrow> app_state \<Rightarrow> app_state" where
  "fistLogic now fist s =
     (if fist then
        (case fistStartTimeRef s of
           None \<Rightarrow> s\<lparr>fistStartTimeRef := Some now\<rparr>
         | Some start \<Rightarrow>
             if start = 0 then s\<lparr>fistStartTimeRef := Some now\<rparr>
             else if now - start > 1000 then s\<lparr>isGrabbingRef := True\<rparr>
             else s)
      else s\<lparr>fistStartTimeRef := None, isGrabbingRef := False, lastHandPosRef := None\<rparr>)"

text \<open>Lines 144 to 168, the branch taken when \<open>isGrabbingRef.current\<close> holds.\<close>

definition grabLogic :: "point \<Rightarrow> app_state \<Rightarrow> app_state" where
  "grabLogic currentHandPos s =
     (case lastHandPosRef s of
        Some lastHandPos \<Rightarrow>
          (let dx = dsub (px currentHandPos) (px lastHandPos);
               dy = dsub (py currentHandPos) (py lastHandPos)
           in if \<bar>dx\<bar> > gridSize \<or> \<bar>dy\<bar> > gridSize then
                (let shiftX = round (ddiv dx gridSize);
                     shiftY = round (ddiv dy gridSize)
                 in if shiftX \<noteq> 0 \<or> shiftY \<noteq> 0 then
                      s\<lparr>voxelsRef := shiftAll shiftX shiftY (voxelsRef s),
                        lastHandPosRef := Some currentHandPos\<rparr>
                    else s)
              else s)
      | None \<Rightarrow> s\<lparr>lastHandPosRef := Some currentHandPos\<rparr>)"

text \<open>Lines 179 to 182, the branch taken when not grabbing and pinching.\<close>

definition pinchKey :: "canvas \<Rightarrow> point list \<Rightarrow> string" where
  "pinchKey cv landmarks =
     voxelKey \<lfloor>ddiv (mappedX cv landmarks) gridSize\<rfloor>
              \<lfloor>ddiv (mappedY cv landmarks) gridSize\<rfloor>"

definition pinchLogic :: "canvas \<Rightarrow> point list \<Rightarrow> app_state \<Rightarrow> app_state" where
  "pinchLogic cv landmarks s = s\<lparr>voxelsRef := add (pinchKey cv landmarks) (voxelsRef s)\<rparr>"

text \<open>
  The body of \<open>results.multiHandLandmarks.forEach\<close> for one hand; \<open>now\<close> is what
  \<open>Date.now()\<close> returns while this hand is processed. The body reads
  \<open>landmarks[0]\<close>, \<open>[4]\<close>, \<open>[8]\<close>, \<open>[12]\<close>, \<open>[16]\<close> and \<open>[20]\<close>; with fewer than 21
  entries one of them is \<open>undefined\<close> and reading its \<open>x\<close> throws a \<open>TypeError\<close>
  before any reference has been written.
\<close>

definition processHand :: "canvas \<Rightarrow> int \<Rightarrow> app_state \<Rightarrow> point list \<Rightarrow> error + app_state" where
  "processHand cv now s landmarks =
     (if length landmarks < 21 then Inl TypeError
      else
        (let s1 = fistLogic now (isFist landmarks) s
         in if isGrabbingRef s1 then
              Inr (grabLogic (Point (mappedWristX cv landmarks) (mappedWristY cv landmarks)) s1)
            else if isPinching landmarks then Inr (pinchLogic cv landmarks s1)
            else Inr s1))"

text \<open>
  \<open>forEach\<close> over the hands of one frame, each paired with its clock reading. An
  exception leaves the loop; what earlier hands wrote stays written.
\<close>

fun forEachHand :: "canvas \<Rightarrow> app_state \<Rightarrow> (point list \<times> int) list \<Rightarrow> error option \<times> app_state" where
  "forEachHand cv s [] = (None, s)"
| "forEachHand cv s ((landmarks, now) # rest) =
     (case processHand cv now s landmarks of
        Inl e \<Rightarrow> (Some e, s)
      | Inr s' \<Rightarrow> forEachHand cv s' rest)"

text \<open>
  The callback. The canvas is \<open>None\<close> when \<open>canvasRef.current\<close> or its 2D context is
  missing (the two early returns). \<open>multiHandLandmarks\<close> is \<open>None\<close> when the field is
  undefined; the guard of line 97 skips the loop then and for the empty array.
\<close>

definition onResults ::
  "canvas option \<Rightarrow> app_state \<Rightarrow> (point list \<times> int) list option \<Rightarrow> error option \<times> app_state" where
  "onResults canvasElement s multiHandLandmarks =
     (case canvasElement of
        None \<Rightarrow> (None, s)
      | Some cv \<Rightarrow>
          (case multiHandLandmarks of
             None \<Rightarrow> (None, s)
           | Some hands \<Rightarrow> if length hands > 0 then forEachHand cv s hands else (None, s)))"

text \<open>A run of the callback over successive frames, observed up to the first exception.\<close>

fun runFrames ::
  "canvas option \<Rightarrow> app_state \<Rightarrow> (point list \<times> int) list option list \<Rightarrow> error option \<times> app_state" where
  "runFrames canvasElement s [] = (None, s)"
| "runFrames canvasElement s (frame # frames) =
     (case onResults canvasElement s frame of
        (Some e, s') \<Rightarrow> (Some e, s')
      | (None, s') \<Rightarrow> runFrames canvasElement s' frames)"

text \<open>The hands of a run in the order in which the callback processes them.\<close>

definition samples :: "(point list \<times> int) list option list \<Rightarrow> (point list \<times> int) list" where
  "samples frames = concat (map (\<lambda>frame. case frame of None \<Rightarrow> [] | Some hands \<Rightarrow> hands) frames)"

text \<open>Line 214, \<open>clearCanvas\<close>.\<close>

definition clearCanvas :: "app_state \<Rightarrow> app_state" where
  "clearCanvas s = s\<lparr>voxelsRef := {}\<rparr>"

subsection \<open>Sample inputs\<close>

text \<open>
  The canvas element of the page has \<open>width={1280}\<close> and \<open>height={720}\<close>. The hands
  and the state below are the concrete inputs at which the theorems are evaluated:
  a hand with all 21 landmarks at one point (fist and pinch at once), a hand whose wrist
  is far from the finger tips and whose thumb is away from the index finger (neither),
  the hand of the pinch scenario, and a state in the middle of a grab. That state is
  what three frames leave behind (lemma \<open>grabState_reachable\<close>): \<open>stampHand\<close> pinches
  over cell \<open>(3, 4)\<close>, and \<open>dwellHand\<close>, a fist with the thumb held away from the
  index finger, is seen twice, 1100 ms apart. Every coordinate is a double: a dyadic
  fraction, or \<open>fl\<close> of a decimal literal.
\<close>

definition canvas1280 :: canvas where
  "canvas1280 = \<lparr>canvasWidth = 1280, canvasHeight = 720\<rparr>"

definition fistAt :: "real \<Rightarrow> real \<Rightarrow> point list" where
  "fistAt x y = replicate 21 (Point x y)"

definition fistHand :: "point list" where
  "fistHand = replicate 21 (Point 0.5 0.5)"

definition openHand :: "point list" where
  "openHand = (replicate 21 (Point 0.5 0.5))[0 := Point 0.125 0.5, 4 := Point 0.25 0.5]"

definition pinchHand :: "point list" where
  "pinchHand =
     (replicate 21 (Point 0.125 (fl 0.503)))[4 := Point 0.5 0.5, 8 := Point 0.5 (fl 0.503)]"

definition stampHand :: "point list" where
  "stampHand = (replicate 21 (Point 0.890625 0.25))[0 := Point 0.515625 0.25]"

definition dwellHand :: "point list" where
  "dwellHand = (replicate 21 (Point 0.5 0.5))[4 := Point 0.5 0.75]"

definition grabState :: app_state where
  "grabState =
     \<lparr>voxelsRef = {''3,4''}, fistStartTimeRef = Some 100, isGrabbingRef = True,
      lastHandPosRef = Some (Point 640 360)\<rparr>"

section \<open>Rounding to doubles\<close>

lemma rte_of_int [simp]: "roundTiesToEven (of_int n) = n"
  by (simp add: roundTiesToEven_def)

lemma rte_error: "\<bar>of_int (roundTiesToEven r) - r\<bar> \<le> 1 / 2"
  unfolding roundTiesToEven_def Let_def by (auto; linarith)

lemma rte_ge: "of_int n \<le> r \<Longrightarrow> n \<le> roundTiesToEven r"
proof -
  assume "of_int n \<le> r"
  then have "n \<le> \<lfloor>r\<rfloor>" by (simp add: le_floor_iff)
  then show ?thesis unfolding roundTiesToEven_def Let_def by auto
qed

lemma rte_le: "r \<le> of_int n \<Longrightarrow> roundTiesToEven r \<le> n"
proof -
  assume a: "r \<le> of_int n"
  show ?thesis
  proof (cases "r = of_int n")
    case True
    then show ?thesis by simp
  next
    case False
    with a have "r < of_int n" by simp
    then have "\<lfloor>r\<rfloor> < n" by (simp add: floor_less_iff)
    then show ?thesis unfolding roundTiesToEven_def Let_def by auto
  qed
qed

lemma powi_pos [simp]: "0 < (2::real) powi k"
  by (simp add: power_int_def)

lemma binade_bounds:
  assumes "x \<noteq> 0"
  shows "2 powi (binade x) \<le> \<bar>x\<bar>" and "\<bar>x\<bar> < 2 powi (binade x + 1)"
proof -
  from assms have pos: "0 < \<bar>x\<bar>" by simp
  have "(2::real) powr (of_int (binade x)) \<le> \<bar>x\<bar> \<and> \<bar>x\<bar> < 2 powr (of_int (binade x) + 1)"
    using floor_log_eq_powr_iff [OF pos, of 2 "binade x"] by (simp add: binade_def)
  then show "2 powi (binade x) \<le> \<bar>x\<bar>" "\<bar>x\<bar> < 2 powi (binade x + 1)"
    using powr_real_of_int' [of 2 "binade x"] powr_real_of_int' [of 2 "binade x + 1"]
    by simp_all
qed

lemma binade_eq:
  assumes "2 powi k \<le> \<bar>x\<bar>" "\<bar>x\<bar> < 2 powi (k + 1)"
  shows "binade x = k"
proof -
  from assms(1) have pos: "0 < \<bar>x\<bar>" using powi_pos [of k] by linarith
  have "(2::real) powr (of_int k) \<le> \<bar>x\<bar> \<and> \<bar>x\<bar> < 2 powr (of_int k + 1)"
    using assms powr_real_of_int' [of 2 k] powr_real_of_int' [of 2 "k + 1"] by simp
  then show ?thesis
    using floor_log_eq_powr_iff [OF pos, of 2 k] by (simp add: binade_def)
qed

lemma ulp_pos [simp]: "0 < ulp x"
  by (simp add: ulp_def)

lemma fl_zero [simp]: "fl 0 = 0"
  by (simp add: fl_def)

lemma fl_error: "\<bar>fl x - x\<bar> \<le> ulp x / 2"
proof (cases "x = 0")
  case True
  then show ?thesis by (simp add: less_imp_le)
next
  case False
  define u where "u = ulp x"
  define a where "a = real_of_int (roundTiesToEven (x / u))"
  have u: "0 < u" by (simp add: u_def)
  have "\<bar>a - x / u\<bar> \<le> 1 / 2" unfolding a_def by (rule rte_error)
  then have "\<bar>a - x / u\<bar> * u \<le> 1 / 2 * u"
    using u by (intro mult_right_mono) simp_all
  moreover have "a * u - x = (a - x / u) * u" using u by (simp add: left_diff_distrib)
  then have "\<bar>a * u - x\<bar> = \<bar>a - x / u\<bar> * u" using u by (simp add: abs_mult)
  ultimately have "\<bar>a * u - x\<bar> \<le> u / 2" by simp
  then show ?thesis using False by (simp add: fl_def a_def u_def)
qed

lemma fl_relative:
  assumes "2 powi (- 1022) \<le> \<bar>x\<bar>"
  shows "\<bar>fl x - x\<bar> \<le> \<bar>x\<bar> / 2 ^ 53"
proof -
  from assms have nz: "x \<noteq> 0" using powi_pos [of "- 1022"] by auto
  have "binade x \<ge> - 1022"
  proof (rule ccontr)
    assume "\<not> binade x \<ge> - 1022"
    then have "binade x + 1 \<le> - 1022" by simp
    then have "(2::real) powi (binade x + 1) \<le> 2 powi (- 1022)"
      by (intro power_int_increasing) simp_all
    with binade_bounds(2) [OF nz] assms show False by linarith
  qed
  then have "ulp x = 2 powi (binade x - 52)" by (simp add: ulp_def max_def)
  also have "\<dots> = 2 powi (binade x) / 2 ^ 52" by (simp add: power_int_diff)
  finally have "ulp x / 2 = 2 powi (binade x) / 2 ^ 53" by simp
  also have "\<dots> \<le> \<bar>x\<bar> / 2 ^ 53"
    using binade_bounds(1) [OF nz] by (simp add: divide_right_mono)
  finally show ?thesis using fl_error [of x] by linarith
qed

lemma fl_eval:
  assumes "2 powi k \<le> \<bar>x\<bar>" "\<bar>x\<bar> < 2 powi (k + 1)"
  shows "fl x = of_int (roundTiesToEven (x / 2 powi (max k (- 1022) - 52)))
                  * 2 powi (max k (- 1022) - 52)"
proof -
  from assms(1) have "0 < \<bar>x\<bar>" using powi_pos [of k] by linarith
  then have "x \<noteq> 0" by simp
  then show ?thesis by (simp only: fl_def ulp_def binade_eq [OF assms] if_False)
qed

lemma fl_ge_pow2:
  assumes "2 powi j \<le> x" "- 1022 \<le> j"
  shows "2 powi j \<le> fl x"
proof -
  from assms(1) have pos: "0 < x" using powi_pos [of j] by linarith
  then have nz: "x \<noteq> 0" by simp
  define e where "e = binade x"
  have lo: "2 powi e \<le> x" and hi: "x < 2 powi (e + 1)"
    using binade_bounds [OF nz] pos by (simp_all add: e_def)
  have je: "j \<le> e"
  proof (rule ccontr)
    assume "\<not> j \<le> e"
    then have "e + 1 \<le> j" by simp
    then have "(2::real) powi (e + 1) \<le> 2 powi j" by (intro power_int_increasing) simp_all
    with hi assms(1) show False by simp
  qed
  with assms(2) have m: "max e (- 1022) = e" by linarith
  define u where "u = (2::real) powi (e - 52)"
  have u: "ulp x = u" unfolding ulp_def u_def e_def [symmetric] m ..
  have upos: "0 < u" by (simp add: u_def)
  have split: "(2::real) powi e = 2 ^ 52 * u"
    unfolding u_def by (simp add: power_int_diff)
  have "real_of_int (2 ^ 52) = 2 powi e / u" using upos by (simp add: split)
  also have "\<dots> \<le> x / u" using lo upos by (intro divide_right_mono) simp_all
  finally have "2 ^ 52 \<le> roundTiesToEven (x / u)" by (rule rte_ge)
  then have "real_of_int (2 ^ 52) \<le> real_of_int (roundTiesToEven (x / u))"
    by (simp only: of_int_le_iff)
  then have "real_of_int (2 ^ 52) * u \<le> real_of_int (roundTiesToEven (x / u)) * u"
    using upos by (intro mult_right_mono) simp_all
  then have "2 powi e \<le> real_of_int (roundTiesToEven (x / u)) * u" by (simp add: split)
  moreover have "(2::real) powi j \<le> 2 powi e" using je by (intro power_int_increasing) simp_all
  ultimately have "2 powi j \<le> real_of_int (roundTiesToEven (x / u)) * u" by linarith
  then show ?thesis using nz by (simp only: fl_def u if_False)
qed

lemma rte_minus: "roundTiesToEven (- r) = - roundTiesToEven r"
proof (cases "r = of_int \<lfloor>r\<rfloor>")
  case True
  then obtain n where "r = of_int n" ..
  then show ?thesis by (simp flip: of_int_minus)
next
  case False
  then have c: "\<lceil>r\<rceil> = \<lfloor>r\<rfloor> + 1" by (simp add: ceiling_altdef)
  have f: "\<lfloor>- r\<rfloor> = - \<lfloor>r\<rfloor> - 1" using c by (simp add: ceiling_def)
  show ?thesis unfolding roundTiesToEven_def Let_def f by auto
qed

lemma binade_minus [simp]: "binade (- x) = binade x"
  by (simp add: binade_def)

lemma fl_minus: "fl (- x) = - fl x"
  by (simp add: fl_def ulp_def rte_minus)

lemma fl_ge_one: "1 \<le> x \<Longrightarrow> 1 \<le> fl x"
  using fl_ge_pow2 [of 0 x] by simp

lemma fl_le_minus_one: "x \<le> - 1 \<Longrightarrow> fl x \<le> - 1"
  using fl_ge_one [of "- x"] by (simp add: fl_minus)

lemma fl_dyadic:
  assumes "\<bar>m\<bar> < 2 ^ 53" "k \<le> 1074"
  shows "fl (of_int m / 2 ^ k) = of_int m / 2 ^ k"
proof (cases "m = 0")
  case True
  then show ?thesis by simp
next
  case False
  define x where "x = (of_int m / 2 ^ k :: real)"
  have nz: "x \<noteq> 0" using False by (simp add: x_def)
  define q where "q = max (binade x) (- 1022) - 52"
  have u: "ulp x = 2 powi q" by (simp only: ulp_def q_def)
  have q: "q \<le> - int k"
  proof (cases "binade x \<ge> - 1022")
    case True
    have "binade x < 53 - int k"
    proof (rule ccontr)
      assume "\<not> binade x < 53 - int k"
      then have "(2::real) powi (53 - int k) \<le> 2 powi (binade x)"
        by (intro power_int_increasing) simp_all
      also have "\<dots> \<le> \<bar>x\<bar>" by (rule binade_bounds(1) [OF nz])
      also have "\<dots> = real_of_int \<bar>m\<bar> / 2 ^ k" by (simp add: x_def)
      also have "\<dots> < 2 ^ 53 / 2 ^ k"
      proof -
        from assms(1) have "real_of_int \<bar>m\<bar> < real_of_int (2 ^ 53)" by (simp only: of_int_less_iff)
        then show ?thesis by (intro divide_strict_right_mono) simp_all
      qed
      also have "\<dots> = 2 powi (53 - int k)" by (simp add: power_int_diff)
      finally show False by simp
    qed
    with True show ?thesis by (simp add: q_def)
  next
    case False
    with assms(2) show ?thesis by (simp add: q_def)
  qed
  define d where "d = nat (- int k - q)"
  have dk: "- int k = q + int d" using q by (simp add: d_def)
  have "(1::real) / 2 ^ k = 2 powi (- int k)" by (simp add: power_int_minus_divide)
  also have "\<dots> = 2 powi q * 2 ^ d" unfolding dk by (simp add: power_int_add)
  finally have inv: "(1::real) / 2 ^ k = 2 powi q * 2 ^ d" .
  have "x = of_int m * (1 / 2 ^ k)" by (simp add: x_def)
  then have "x = of_int (m * 2 ^ d) * 2 powi q" unfolding inv by simp
  then have xq: "x / 2 powi q = of_int (m * 2 ^ d)" by simp
  have "fl x = of_int (roundTiesToEven (x / 2 powi q)) * 2 powi q"
    using nz by (simp only: fl_def u if_False)
  also have "\<dots> = of_int (m * 2 ^ d) * 2 powi q" by (simp only: xq rte_of_int)
  also have "\<dots> = x" using \<open>x = of_int (m * 2 ^ d) * 2 powi q\<close> by simp
  finally show ?thesis by (simp only: x_def)
qed

lemma rte_nearest: "\<bar>r - of_int m\<bar> < 1 / 2 \<Longrightarrow> roundTiesToEven r = m"
proof -
  assume a: "\<bar>r - of_int m\<bar> < 1 / 2"
  have b: "\<bar>of_int (roundTiesToEven r) - r\<bar> \<le> 1 / 2" by (rule rte_error)
  from a b have "\<bar>real_of_int (roundTiesToEven r) - real_of_int m\<bar> < 1" by linarith
  then have "\<bar>real_of_int (roundTiesToEven r - m)\<bar> < 1" by simp
  then have "\<bar>roundTiesToEven r - m\<bar> < 1" by (simp only: of_int_abs [symmetric] of_int_less_1_iff)
  then show ?thesis by simp
qed

text \<open>
  The square root of a double, rounded: \<open>m\<close> units in the last place when the root
  lies strictly within half a unit of it, which is decided on the squares.
\<close>

lemma dsqrt_eval:
  assumes "(2 powi k)\<^sup>2 \<le> s" and "s < (2 powi (k + 1))\<^sup>2"
    and "u = 2 powi (max k (- 1022) - 52)" and "1 \<le> m"
    and "((of_int m - 1 / 2) * u)\<^sup>2 < s" and "s < ((of_int m + 1 / 2) * u)\<^sup>2"
  shows "dsqrt s = of_int m * u"
proof -
  have upos: "0 < u" by (simp add: assms(3))
  have lo: "2 powi k \<le> sqrt s" using assms(1) by (rule real_le_rsqrt)
  have spos: "0 \<le> s" using assms(1) zero_le_power2 [of "2 powi k :: real"] by linarith
  have hi: "sqrt s < 2 powi (k + 1)"
    using spos assms(2) by (intro real_less_lsqrt) simp_all
  have m: "0 \<le> (of_int m - 1 / 2) * u" "0 \<le> (of_int m + 1 / 2) * u"
    using assms(4) upos by simp_all
  have a: "(of_int m - 1 / 2) * u < sqrt s" using assms(5) by (rule real_less_rsqrt)
  have b: "sqrt s < (of_int m + 1 / 2) * u"
    using spos m(2) assms(6) by (intro real_less_lsqrt) simp_all
  from a b upos have "of_int m - 1 / 2 < sqrt s / u" "sqrt s / u < of_int m + 1 / 2"
    by (simp_all add: pos_less_divide_eq pos_divide_less_eq)
  then have "\<bar>sqrt s / u - of_int m\<bar> < 1 / 2" by linarith
  then have r: "roundTiesToEven (sqrt s / u) = m" by (rule rte_nearest)
  have "\<bar>sqrt s\<bar> = sqrt s" using spos by simp
  with lo hi have "2 powi k \<le> \<bar>sqrt s\<bar>" "\<bar>sqrt s\<bar> < 2 powi (k + 1)" by simp_all
  from fl_eval [OF this] show ?thesis unfolding dsqrt_def assms(3) [symmetric] r .
qed

lemma fl_half_units: "fl (of_int n / 2) = of_int n / 2" if "\<bar>n\<bar> < 2 ^ 53"
  using fl_dyadic [of n 1] that by simp

lemma fl_int: "fl (of_int n) = of_int n" if "\<bar>n\<bar> < 2 ^ 53"
  using fl_dyadic [of n 0] that by simp

section \<open>Keys: printing and reading back\<close>

lemma digitChar_cases:
  "d < 10 \<Longrightarrow> isDigit (digitChar d) \<and> digitVal (digitChar d) = d \<and> digitChar d \<noteq> CHR '','' \<and> digitChar d \<noteq> CHR ''-'' \<and> digitChar d \<noteq> CHR ''+''"
proof -
  assume "d < 10"
  then have "d = 0 \<or> d = 1 \<or> d = 2 \<or> d = 3 \<or> d = 4 \<or> d = 5 \<or> d = 6 \<or> d = 7 \<or> d = 8 \<or> d = 9"
    by arith
  then show ?thesis
    by (elim disjE) (simp_all add: digitChar_def isDigit_def digitVal_def)
qed

lemma natToString_digits: "list_all isDigit (natToString n)"
proof (induction n rule: natToString.induct)
  case (1 n)
  show ?case
  proof (cases "n < 10")
    case True
    then show ?thesis by (simp add: natToString.simps [of n] digitChar_cases)
  next
    case False
    with 1 show ?thesis by (simp add: natToString.simps [of n] digitChar_cases)
  qed
qed

lemma natToString_nonempty: "natToString n \<noteq> []"
  by (simp add: natToString.simps [of n])

lemma digitsVal_snoc: "digitsVal (ds @ [c]) = 10 * digitsVal ds + digitVal c"
  by (simp add: digitsVal_def)

lemma digitsVal_natToString: "digitsVal (natToString n) = n"
proof (induction n rule: natToString.induct)
  case (1 n)
  show ?case
  proof (cases "n < 10")
    case True
    then show ?thesis by (simp add: natToString.simps [of n] digitChar_cases digitsVal_def)
  next
    case False
    with 1 show ?thesis
      by (simp add: natToString.simps [of n] digitsVal_snoc digitChar_cases)
  qed
qed

lemma isDigit_not_special: "isDigit c \<Longrightarrow> c \<noteq> CHR '','' \<and> c \<noteq> CHR ''-'' \<and> c \<noteq> CHR ''+''"
  by (auto simp: isDigit_def)

lemma Number_numToString: "Number (numToString (JsInt n)) = JsInt n"
proof (cases "n < 0")
  case True
  then show ?thesis
    by (simp add: Number_def natToString_nonempty natToString_digits digitsVal_natToString)
next
  case False
  obtain c cs where cs: "natToString (nat n) = c # cs"
    using natToString_nonempty [of "nat n"] by (cases "natToString (nat n)") auto
  have "isDigit c" using natToString_digits [of "nat n"] cs by simp
  then have "c \<noteq> CHR ''-''" "c \<noteq> CHR ''+''" using isDigit_not_special by blast+
  moreover have "list_all isDigit (c # cs)" using natToString_digits [of "nat n"] cs by simp
  moreover have "digitsVal (c # cs) = nat n" using digitsVal_natToString [of "nat n"] cs by simp
  ultimately show ?thesis using False cs by (simp add: Number_def)
qed

lemma numToString_no_comma: "CHR '','' \<notin> set (numToString (JsInt n))"
proof -
  have "CHR '','' \<notin> set (natToString m)" for m
    using natToString_digits [of m] isDigit_not_special by (auto simp: list_all_iff)
  then show ?thesis by simp
qed

lemma splitComma_no_comma: "CHR '','' \<notin> set v \<Longrightarrow> splitComma v = [v]"
  by (induction v) auto

lemma splitComma_append: "CHR '','' \<notin> set u \<Longrightarrow> splitComma (u @ CHR '','' # v) = u # splitComma v"
  by (induction u) auto

lemma parseKey_voxelKey: "parseKey (voxelKey gx gy) = (JsInt gx, JsInt gy)"
  by (simp add: parseKey_def voxelKey_def template_def splitComma_append splitComma_no_comma
      numToString_no_comma Number_numToString del: numToString.simps)

lemma wellFormedKey_voxelKey: "wellFormedKey (voxelKey gx gy)"
  by (simp add: wellFormedKey_def parseKey_voxelKey)

lemma wellFormedKey_iff: "wellFormedKey key \<longleftrightarrow> (\<exists>gx gy. key = voxelKey gx gy)"
  by (auto simp: wellFormedKey_voxelKey) (auto simp: wellFormedKey_def split: prod.splits jsnum.splits)

section \<open>Shifting well-formed keys\<close>

lemma wellFormedKeyE:
  assumes "\<forall>key\<in>vox. wellFormedKey key" "k \<in> vox"
  obtains gx gy where "k = voxelKey gx gy"
proof -
  from assms have "wellFormedKey k" by blast
  then have "\<exists>gx gy. k = voxelKey gx gy" by (simp only: wellFormedKey_iff)
  then show ?thesis using that by blast
qed

lemma shiftKey_voxelKey: "shiftKey dx dy (voxelKey gx gy) = voxelKey (gx + dx) (gy + dy)"
  by (simp add: shiftKey_def parseKey_voxelKey) (simp add: voxelKey_def)

lemma voxelKey_inject: "voxelKey gx gy = voxelKey gx' gy' \<longleftrightarrow> gx = gx' \<and> gy = gy'"
proof
  assume "voxelKey gx gy = voxelKey gx' gy'"
  then have "parseKey (voxelKey gx gy) = parseKey (voxelKey gx' gy')" by simp
  then show "gx = gx' \<and> gy = gy'" by (simp add: parseKey_voxelKey)
qed simp

lemma shiftKey_inj_on:
  assumes wf: "\<forall>key\<in>vox. wellFormedKey key"
  shows "inj_on (shiftKey dx dy) vox"
proof (rule inj_onI)
  fix k1 k2
  assume k1: "k1 \<in> vox" and k2: "k2 \<in> vox" and eq: "shiftKey dx dy k1 = shiftKey dx dy k2"
  from wf k1 obtain x1 y1 where 1: "k1 = voxelKey x1 y1" by (rule wellFormedKeyE)
  from wf k2 obtain x2 y2 where 2: "k2 = voxelKey x2 y2" by (rule wellFormedKeyE)
  from eq show "k1 = k2" unfolding 1 2 by (simp add: shiftKey_voxelKey voxelKey_inject)
qed

lemma shiftAll_wellFormed:
  assumes wf: "\<forall>key\<in>vox. wellFormedKey key"
  shows "\<forall>key\<in>shiftAll dx dy vox. wellFormedKey key"
proof
  fix k assume "k \<in> shiftAll dx dy vox"
  then obtain k0 where k0: "k0 \<in> vox" and k: "k = shiftKey dx dy k0"
    unfolding shiftAll_def by blast
  from wf k0 obtain gx gy where "k0 = voxelKey gx gy" by (rule wellFormedKeyE)
  with k show "wellFormedKey k" by (simp add: shiftKey_voxelKey wellFormedKey_voxelKey)
qed

lemma shiftAll_cells:
  assumes wf: "\<forall>key\<in>vox. wellFormedKey key"
  shows "shiftAll dx dy vox = {voxelKey (gx + dx) (gy + dy) |gx gy. voxelKey gx gy \<in> vox}"
    (is "?L = ?R")
proof (rule set_eqI, rule iffI)
  fix k assume "k \<in> ?L"
  then obtain k0 where k0: "k0 \<in> vox" and k: "k = shiftKey dx dy k0"
    unfolding shiftAll_def by blast
  from wf k0 obtain gx gy where g: "k0 = voxelKey gx gy" by (rule wellFormedKeyE)
  from k g have "k = voxelKey (gx + dx) (gy + dy)" by (simp add: shiftKey_voxelKey)
  moreover from k0 g have "voxelKey gx gy \<in> vox" by simp
  ultimately show "k \<in> ?R" by blast
next
  fix k assume "k \<in> ?R"
  then obtain gx gy where k: "k = voxelKey (gx + dx) (gy + dy)" and m: "voxelKey gx gy \<in> vox"
    by blast
  from k have "k = shiftKey dx dy (voxelKey gx gy)" by (simp add: shiftKey_voxelKey)
  with m show "k \<in> ?L" unfolding shiftAll_def by blast
qed

lemma shiftAll_compose:
  assumes wf: "\<forall>key\<in>vox. wellFormedKey key"
  shows "shiftAll dx2 dy2 (shiftAll dx1 dy1 vox) = shiftAll (dx1 + dx2) (dy1 + dy2) vox"
proof -
  have "shiftKey dx2 dy2 (shiftKey dx1 dy1 k) = shiftKey (dx1 + dx2) (dy1 + dy2) k"
    if "k \<in> vox" for k
  proof -
    from wf that obtain gx gy where "k = voxelKey gx gy" by (rule wellFormedKeyE)
    then show ?thesis by (simp add: shiftKey_voxelKey add.assoc)
  qed
  then have "(\<lambda>k. shiftKey dx2 dy2 (shiftKey dx1 dy1 k)) ` vox
      = shiftKey (dx1 + dx2) (dy1 + dy2) ` vox"
    by (rule image_cong [OF refl])
  then show ?thesis by (simp add: shiftAll_def image_image)
qed

lemma shiftAll_zero:
  assumes wf: "\<forall>key\<in>vox. wellFormedKey key"
  shows "shiftAll 0 0 vox = vox"
proof -
  have "shiftKey 0 0 k = k" if "k \<in> vox" for k
  proof -
    from wf that obtain gx gy where "k = voxelKey gx gy" by (rule wellFormedKeyE)
    then show ?thesis by (simp add: shiftKey_voxelKey)
  qed
  then have "shiftKey 0 0 ` vox = (\<lambda>k. k) ` vox"
    by (rule image_cong [OF refl])
  then show ?thesis by (simp add: shiftAll_def)
qed


section \<open>The per-hand logic and the frame loop\<close>

lemma fistLogic_voxels [simp]: "voxelsRef (fistLogic now fist s) = voxelsRef s"
  by (simp add: fistLogic_def split: option.split)


lemma fistLogic_keeps_grab: "isGrabbingRef s \<Longrightarrow> isGrabbingRef (fistLogic now True s)"
  by (simp add: fistLogic_def split: option.split)

lemma fistLogic_keeps_anchor [simp]: "lastHandPosRef (fistLogic now True s) = lastHandPosRef s"
  by (simp add: fistLogic_def split: option.split)

lemma fistLogic_running:
  assumes "fistStartTimeRef s = Some t0" "t0 \<noteq> 0"
  shows "fistStartTimeRef (fistLogic now True s) = Some t0"
    and "isGrabbingRef (fistLogic now True s) \<longleftrightarrow> isGrabbingRef s \<or> now - t0 > 1000"
  using assms by (simp_all add: fistLogic_def)

lemma fistLogic_start:
  assumes "fistStartTimeRef s = None"
  shows "fistStartTimeRef (fistLogic now True s) = Some now"
    and "isGrabbingRef (fistLogic now True s) = isGrabbingRef s"
  using assms by (simp_all add: fistLogic_def)

lemma fistLogic_started: "fistStartTimeRef (fistLogic now True s) \<noteq> None"
  by (simp add: fistLogic_def split: option.split)

text \<open>A timer that holds \<open>0\<close> counts as not started: the next fist frame restarts it.\<close>

lemma fistLogic_epoch:
  "fistStartTimeRef s = Some 0 \<Longrightarrow> fistLogic now True s = s\<lparr>fistStartTimeRef := Some now\<rparr>"
  by (simp add: fistLogic_def)

lemma grabLogic_fields [simp]:
  "fistStartTimeRef (grabLogic p s) = fistStartTimeRef s"
  "isGrabbingRef (grabLogic p s) = isGrabbingRef s"
  by (simp_all add: grabLogic_def Let_def split: option.split)

lemma pinchLogic_fields [simp]:
  "fistStartTimeRef (pinchLogic cv lm s) = fistStartTimeRef s"
  "isGrabbingRef (pinchLogic cv lm s) = isGrabbingRef s"
  "lastHandPosRef (pinchLogic cv lm s) = lastHandPosRef s"
  "voxelsRef (pinchLogic cv lm s) = add (pinchKey cv lm) (voxelsRef s)"
  by (simp_all add: pinchLogic_def)

lemma grabLogic_voxels:
  "voxelsRef (grabLogic p s) = voxelsRef s
   \<or> (\<exists>shiftX shiftY. voxelsRef (grabLogic p s) = shiftAll shiftX shiftY (voxelsRef s))"
  by (auto simp: grabLogic_def Let_def split: option.split)

lemma round_crossed:
  assumes "\<bar>d\<bar> > gridSize"
  shows "round (ddiv d gridSize) \<noteq> 0"
proof -
  from assms have "1 \<le> d / 40 \<or> d / 40 \<le> - 1"
    by (simp add: gridSize_def abs_if split: if_splits)
  then have "1 \<le> fl (d / 40) \<or> fl (d / 40) \<le> - 1"
    using fl_ge_one [of "d / 40"] fl_le_minus_one [of "d / 40"] by blast
  then have "\<lfloor>fl (d / 40) + 1 / 2\<rfloor> \<noteq> 0" by linarith
  then show ?thesis by (simp add: round_def ddiv_def gridSize_def)
qed

lemma grabLogic_sub:
  assumes "lastHandPosRef s = Some a"
    and "\<bar>dsub (px p) (px a)\<bar> \<le> gridSize" "\<bar>dsub (py p) (py a)\<bar> \<le> gridSize"
  shows "grabLogic p s = s"
  using assms by (simp add: grabLogic_def Let_def)

lemma grabLogic_cross:
  assumes "lastHandPosRef s = Some a"
    and "\<bar>dsub (px p) (px a)\<bar> > gridSize \<or> \<bar>dsub (py p) (py a)\<bar> > gridSize"
  shows "grabLogic p s =
     s\<lparr>voxelsRef := shiftAll (round (ddiv (dsub (px p) (px a)) gridSize))
                        (round (ddiv (dsub (py p) (py a)) gridSize)) (voxelsRef s),
       lastHandPosRef := Some p\<rparr>"
proof -
  from assms(2) have "round (ddiv (dsub (px p) (px a)) gridSize) \<noteq> 0
      \<or> round (ddiv (dsub (py p) (py a)) gridSize) \<noteq> 0"
    using round_crossed by blast
  with assms show ?thesis by (simp add: grabLogic_def Let_def)
qed

lemma forEachHand_append:
  "forEachHand cv s (xs @ ys) =
     (case forEachHand cv s xs of
        (Some e, s') \<Rightarrow> (Some e, s')
      | (None, s') \<Rightarrow> forEachHand cv s' ys)"
  by (induction xs arbitrary: s) (auto split: sum.split)

lemma onResults_forEachHand:
  "onResults (Some cv) s frame =
     forEachHand cv s (case frame of None \<Rightarrow> [] | Some hands \<Rightarrow> hands)"
  by (cases frame) (auto simp: onResults_def)

lemma runFrames_samples: "runFrames (Some cv) s frames = forEachHand cv s (samples frames)"
proof (induction frames arbitrary: s)
  case Nil
  show ?case by (simp add: samples_def)
next
  case (Cons frame frames)
  have "samples (frame # frames) = (case frame of None \<Rightarrow> [] | Some hands \<Rightarrow> hands) @ samples frames"
    by (simp add: samples_def)
  then show ?case
    by (simp add: onResults_forEachHand forEachHand_append Cons.IH split: prod.split option.split)
qed

section \<open>Distances and thresholds\<close>

lemma getDistance_same [simp]: "getDistance p p = 0"
  by (simp add: getDistance_def dsub_def dpow2_def dadd_def dsqrt_def)

lemma getDistance_level:
  "py p = py q \<Longrightarrow> px p - px q = 3 / 8 \<Longrightarrow> getDistance p q = 3 / 8"
proof -
  assume a: "py p = py q" "px p - px q = 3 / 8"
  have f: "fl (3 / 8) = 3 / 8" "fl (9 / 64) = 9 / 64"
    using fl_dyadic [of 3 3] fl_dyadic [of 9 6] by simp_all
  have r: "sqrt (9 / 64) = 3 / 8" by (rule real_sqrt_unique) (simp_all add: power2_eq_square)
  show ?thesis
    by (simp add: getDistance_def dsub_def dpow2_def dadd_def dsqrt_def a f r)
qed

lemma fl_fistThreshold: "fl 0.15 = 5404319552844595 / 2 ^ 55"
  by (subst fl_eval [of "- 3"]; simp add: roundTiesToEven_def)

lemma fl_pinchThreshold: "fl 0.04 = 5764607523034235 / 2 ^ 57"
  by (subst fl_eval [of "- 5"]; simp add: roundTiesToEven_def)

lemma isFist_iff:
  "isFist lm \<longleftrightarrow>
     getDistance (lm ! 8) (lm ! 0) < fl 0.15 \<and> getDistance (lm ! 12) (lm ! 0) < fl 0.15
     \<and> getDistance (lm ! 16) (lm ! 0) < fl 0.15 \<and> getDistance (lm ! 20) (lm ! 0) < fl 0.15"
  by (simp add: isFist_def fingerDists_def)

lemma isFist_index: "isFist lm \<Longrightarrow> getDistance (lm ! 8) (lm ! 0) < fl 0.15"
  by (simp add: isFist_iff)

lemma dist_pinch_same: "lm ! 4 = lm ! 8 \<Longrightarrow> dist_pinch lm = 0"
  by (simp add: dist_pinch_def dsub_def dpow2_def dadd_def dsqrt_def)

lemma fl_quarter: "fl (1 / 4) = 1 / 4" "fl (1 / 16) = 1 / 16"
  using fl_dyadic [of 1 2] fl_dyadic [of 1 4] by simp_all

lemma sqrt_sixteenth: "sqrt (1 / 16) = 1 / 4"
  by (rule real_sqrt_unique) (simp_all add: power2_eq_square)

section \<open>One hand, and the store invariant\<close>

lemma processHand_fields:
  assumes "21 \<le> length lm"
  shows "\<exists>s'. processHand cv now s lm = Inr s'
           \<and> fistStartTimeRef s' = fistStartTimeRef (fistLogic now (isFist lm) s)
           \<and> isGrabbingRef s' = isGrabbingRef (fistLogic now (isFist lm) s)"
  using assms by (simp add: processHand_def Let_def)

lemma processHand_running:
  assumes "21 \<le> length lm" "isFist lm" "fistStartTimeRef s = Some t0" "t0 \<noteq> 0"
  shows "\<exists>s'. processHand cv now s lm = Inr s' \<and> fistStartTimeRef s' = Some t0
           \<and> (isGrabbingRef s' \<longleftrightarrow> isGrabbingRef s \<or> now - t0 > 1000)"
  using processHand_fields [OF assms(1), of cv now s] assms(2)
    fistLogic_running [OF assms(3,4), of now]
  by auto

lemma processHand_start:
  assumes "21 \<le> length lm" "isFist lm" "fistStartTimeRef s = None"
  shows "\<exists>s'. processHand cv now s lm = Inr s' \<and> fistStartTimeRef s' = Some now
           \<and> isGrabbingRef s' = isGrabbingRef s"
  using processHand_fields [OF assms(1), of cv now s] assms(2)
    fistLogic_start [OF assms(3), of now]
  by auto


lemma not_grabbing_after:
  assumes "21 \<le> length lm" "processHand cv now s lm = Inr s'" "\<not> isGrabbingRef s'"
  shows "s' = (if isPinching lm then pinchLogic cv lm (fistLogic now (isFist lm) s)
               else fistLogic now (isFist lm) s)"
proof (cases "isGrabbingRef (fistLogic now (isFist lm) s)")
  case True
  with assms(1,2) have "isGrabbingRef s'" by (auto simp: processHand_def Let_def)
  with assms(3) show ?thesis by simp
next
  case False
  with assms(1,2) show ?thesis by (auto simp: processHand_def Let_def)
qed

lemma grabLogic_anchor_voxels_wf:
  assumes "\<forall>k\<in>voxelsRef s. wellFormedKey k"
  shows "\<forall>k\<in>voxelsRef (grabLogic p s). wellFormedKey k"
proof -
  from grabLogic_voxels [of p s] show ?thesis
  proof
    assume "voxelsRef (grabLogic p s) = voxelsRef s"
    with assms show ?thesis by simp
  next
    assume "\<exists>shiftX shiftY. voxelsRef (grabLogic p s) = shiftAll shiftX shiftY (voxelsRef s)"
    then obtain shiftX shiftY
      where "voxelsRef (grabLogic p s) = shiftAll shiftX shiftY (voxelsRef s)" by blast
    with shiftAll_wellFormed [OF assms, of shiftX shiftY] show ?thesis by simp
  qed
qed

lemma processHand_wellFormed:
  assumes "\<forall>k\<in>voxelsRef s. wellFormedKey k" "processHand cv now s lm = Inr s'"
  shows "\<forall>k\<in>voxelsRef s'. wellFormedKey k"
proof -
  let ?s1 = "fistLogic now (isFist lm) s"
  from assms(1) have wf1: "\<forall>k\<in>voxelsRef ?s1. wellFormedKey k" by simp
  from assms(2) have
    "s' = grabLogic (Point (mappedWristX cv lm) (mappedWristY cv lm)) ?s1
     \<or> s' = pinchLogic cv lm ?s1 \<or> s' = ?s1"
    by (auto simp: processHand_def Let_def split: if_splits)
  then show ?thesis
  proof (elim disjE)
    assume "s' = grabLogic (Point (mappedWristX cv lm) (mappedWristY cv lm)) ?s1"
    with grabLogic_anchor_voxels_wf [OF wf1] show ?thesis by simp
  next
    assume "s' = pinchLogic cv lm ?s1"
    with assms(1) show ?thesis
      by (simp add: add_def pinchKey_def wellFormedKey_voxelKey)
  next
    assume "s' = ?s1"
    with assms(1) show ?thesis by simp
  qed
qed

lemma forEachHand_wellFormed:
  assumes "\<forall>k\<in>voxelsRef s. wellFormedKey k"
  shows "\<forall>k\<in>voxelsRef (snd (forEachHand cv s hs)). wellFormedKey k"
  using assms
proof (induction hs arbitrary: s)
  case Nil
  then show ?case by simp
next
  case (Cons h hs)
  obtain lm now where h: "h = (lm, now)" by (cases h)
  show ?case
  proof (cases "processHand cv now s lm")
    case (Inl e)
    with h Cons.prems show ?thesis by simp
  next
    case (Inr s1)
    from processHand_wellFormed [OF Cons.prems Inr] have "\<forall>k\<in>voxelsRef s1. wellFormedKey k" .
    from Cons.IH [OF this] h Inr show ?thesis by simp
  qed
qed

lemma runFrames_wellFormed:
  "\<forall>k\<in>voxelsRef (snd (runFrames (Some cv) initialState frames)). wellFormedKey k"
proof -
  have "\<forall>k\<in>voxelsRef initialState. wellFormedKey k" by (simp add: initialState_def)
  from forEachHand_wellFormed [OF this] show ?thesis by (simp add: runFrames_samples)
qed

lemma processHand_grab_sub:
  assumes "21 \<le> length lm" "isFist lm" "isGrabbingRef s" "lastHandPosRef s = Some a"
    and "\<bar>dsub (mappedWristX cv lm) (px a)\<bar> \<le> gridSize" "\<bar>dsub (mappedWristY cv lm) (py a)\<bar> \<le> gridSize"
  shows "\<exists>s'. processHand cv now s lm = Inr s' \<and> isGrabbingRef s'
           \<and> lastHandPosRef s' = Some a \<and> voxelsRef s' = voxelsRef s"
proof -
  let ?s1 = "fistLogic now True s"
  let ?p = "Point (mappedWristX cv lm) (mappedWristY cv lm)"
  have g: "isGrabbingRef ?s1" using assms(3) by (rule fistLogic_keeps_grab)
  have a: "lastHandPosRef ?s1 = Some a" using assms(4) by simp
  have "grabLogic ?p ?s1 = ?s1" using a assms(5,6) by (intro grabLogic_sub) simp_all
  with g a assms(1,2) show ?thesis by (simp add: processHand_def Let_def)
qed

lemma processHand_grab_cross:
  assumes "21 \<le> length lm" "isFist lm" "isGrabbingRef s" "lastHandPosRef s = Some a"
    and "\<bar>dsub (mappedWristX cv lm) (px a)\<bar> > gridSize \<or> \<bar>dsub (mappedWristY cv lm) (py a)\<bar> > gridSize"
  shows "\<exists>s'. processHand cv now s lm = Inr s' \<and> isGrabbingRef s'
           \<and> lastHandPosRef s' = Some (Point (mappedWristX cv lm) (mappedWristY cv lm))
           \<and> voxelsRef s' =
               shiftAll (round (ddiv (dsub (mappedWristX cv lm) (px a)) gridSize))
                        (round (ddiv (dsub (mappedWristY cv lm) (py a)) gridSize)) (voxelsRef s)"
proof -
  let ?s1 = "fistLogic now True s"
  let ?p = "Point (mappedWristX cv lm) (mappedWristY cv lm)"
  have g: "isGrabbingRef ?s1" using assms(3) by (rule fistLogic_keeps_grab)
  have a: "lastHandPosRef ?s1 = Some a" using assms(4) by simp
  have "grabLogic ?p ?s1 =
      ?s1\<lparr>voxelsRef := shiftAll (round (ddiv (dsub (px ?p) (px a)) gridSize))
             (round (ddiv (dsub (py ?p) (py a)) gridSize)) (voxelsRef ?s1),
          lastHandPosRef := Some ?p\<rparr>"
    using a assms(5) by (intro grabLogic_cross) simp_all
  with g assms(1,2) show ?thesis by (simp add: processHand_def Let_def)
qed

section \<open>Runs of fist frames\<close>

lemma dwell_running:
  assumes "fistStartTimeRef s = Some t0" "t0 \<noteq> 0"
    and "\<forall>(lm, t)\<in>set hs. 21 \<le> length lm \<and> isFist lm"
  shows "\<exists>s'. forEachHand cv s hs = (None, s') \<and> fistStartTimeRef s' = Some t0
           \<and> (isGrabbingRef s' \<longleftrightarrow> isGrabbingRef s \<or> (\<exists>(lm, t)\<in>set hs. t - t0 > 1000))"
  using assms
proof (induction hs arbitrary: s)
  case Nil
  then show ?case by simp
next
  case (Cons h hs)
  obtain lm now where h: "h = (lm, now)" by (cases h)
  from Cons.prems(3) h have lm: "21 \<le> length lm" "isFist lm" by simp_all
  from processHand_running [OF lm Cons.prems(1,2), of cv now]
  obtain s1 where s1: "processHand cv now s lm = Inr s1" "fistStartTimeRef s1 = Some t0"
    "isGrabbingRef s1 \<longleftrightarrow> isGrabbingRef s \<or> now - t0 > 1000"
    by blast
  from Cons.prems(3) have rest: "\<forall>(lm, t)\<in>set hs. 21 \<le> length lm \<and> isFist lm" by simp
  from Cons.IH [OF s1(2) Cons.prems(2) rest]
  obtain s' where s': "forEachHand cv s1 hs = (None, s')" "fistStartTimeRef s' = Some t0"
    "isGrabbingRef s' \<longleftrightarrow> isGrabbingRef s1 \<or> (\<exists>(lm, t)\<in>set hs. t - t0 > 1000)"
    by blast
  from s1(1) s'(1) h have "forEachHand cv s (h # hs) = (None, s')" by simp
  moreover from s1(3) s'(3) h
  have "isGrabbingRef s' \<longleftrightarrow> isGrabbingRef s \<or> (\<exists>(lm, t)\<in>set (h # hs). t - t0 > 1000)"
    by auto
  ultimately show ?case using s'(2) by blast
qed

lemma dwell_fresh:
  assumes "fistStartTimeRef s = None" "\<not> isGrabbingRef s" "t0 \<noteq> 0"
    and "\<forall>(lm, t)\<in>set ((lm0, t0) # rest). 21 \<le> length lm \<and> isFist lm"
  shows "\<exists>s'. forEachHand cv s ((lm0, t0) # rest) = (None, s') \<and> fistStartTimeRef s' = Some t0
           \<and> (isGrabbingRef s' \<longleftrightarrow> (\<exists>(lm, t)\<in>set rest. t - t0 > 1000))"
proof -
  from assms(4) have lm0: "21 \<le> length lm0" "isFist lm0" by simp_all
  from processHand_start [OF lm0 assms(1), of cv t0] assms(2)
  obtain s1 where s1: "processHand cv t0 s lm0 = Inr s1" "fistStartTimeRef s1 = Some t0"
    "\<not> isGrabbingRef s1"
    by auto
  from assms(4) have rest: "\<forall>(lm, t)\<in>set rest. 21 \<le> length lm \<and> isFist lm" by simp
  from dwell_running [OF s1(2) assms(3) rest, of cv] s1(3)
  obtain s' where "forEachHand cv s1 rest = (None, s')" "fistStartTimeRef s' = Some t0"
    "isGrabbingRef s' \<longleftrightarrow> (\<exists>(lm, t)\<in>set rest. t - t0 > 1000)"
    by auto
  with s1(1) show ?thesis by simp
qed

lemma grab_sub_run:
  assumes "isGrabbingRef s" "lastHandPosRef s = Some a"
    and "\<forall>(lm, t)\<in>set hs. 21 \<le> length lm \<and> isFist lm
            \<and> \<bar>dsub (mappedWristX cv lm) (px a)\<bar> \<le> gridSize \<and> \<bar>dsub (mappedWristY cv lm) (py a)\<bar> \<le> gridSize"
  shows "\<exists>s'. forEachHand cv s hs = (None, s') \<and> isGrabbingRef s'
           \<and> lastHandPosRef s' = Some a \<and> voxelsRef s' = voxelsRef s"
  using assms
proof (induction hs arbitrary: s)
  case Nil
  then show ?case by simp
next
  case (Cons h hs)
  obtain lm now where h: "h = (lm, now)" by (cases h)
  from Cons.prems(3) h have lm: "21 \<le> length lm" "isFist lm"
    "\<bar>dsub (mappedWristX cv lm) (px a)\<bar> \<le> gridSize" "\<bar>dsub (mappedWristY cv lm) (py a)\<bar> \<le> gridSize"
    by simp_all
  from processHand_grab_sub [OF lm(1,2) Cons.prems(1,2) lm(3,4), of now]
  obtain s1 where s1: "processHand cv now s lm = Inr s1" "isGrabbingRef s1"
    "lastHandPosRef s1 = Some a" "voxelsRef s1 = voxelsRef s"
    by blast
  from Cons.prems(3) have rest: "\<forall>(lm, t)\<in>set hs. 21 \<le> length lm \<and> isFist lm
      \<and> \<bar>dsub (mappedWristX cv lm) (px a)\<bar> \<le> gridSize \<and> \<bar>dsub (mappedWristY cv lm) (py a)\<bar> \<le> gridSize"
    by simp
  from Cons.IH [OF s1(2,3) rest] s1(1,4) h show ?case by simp
qed

section \<open>The sample inputs evaluated\<close>

lemma fl_samples:
  "fl (1 / 2) = 1 / 2" "fl (7 / 64) = 7 / 64" "fl 140 = 140" "fl (7 / 2) = 7 / 2"
  "fl 180 = 180" "fl (9 / 2) = 9 / 2" "fl 640 = 640" "fl 360 = 360" "fl 16 = 16" "fl 9 = 9"
  "fl (33 / 64) = 33 / 64" "fl 660 = 660" "fl 20 = 20"
  "fl (17 / 32) = 17 / 32" "fl 680 = 680" "fl 40 = 40"
  "fl (69 / 128) = 69 / 128" "fl 690 = 690" "fl 50 = 50" "fl (5 / 4) = 5 / 4"
  using fl_dyadic [of 1 1] fl_dyadic [of 7 6] fl_dyadic [of 140 0] fl_dyadic [of 7 1]
    fl_dyadic [of 180 0] fl_dyadic [of 9 1] fl_dyadic [of 640 0] fl_dyadic [of 360 0]
    fl_dyadic [of 16 0] fl_dyadic [of 9 0]
    fl_dyadic [of 33 6] fl_dyadic [of 660 0] fl_dyadic [of 20 0]
    fl_dyadic [of 17 5] fl_dyadic [of 680 0] fl_dyadic [of 40 0]
    fl_dyadic [of 69 7] fl_dyadic [of 690 0] fl_dyadic [of 50 0] fl_dyadic [of 5 2]
  by simp_all

lemma fl_thresholds:
  "fl (3 / 20) = 5404319552844595 / 2 ^ 55" "fl (1 / 25) = 5764607523034235 / 2 ^ 57"
  using fl_fistThreshold fl_pinchThreshold by simp_all

lemma thresholds_pos:
  "0 < fl (3 / 20)" "0 < fl (1 / 25)" "\<not> 3 / 8 < fl (3 / 20)" "\<not> 1 / 4 < fl (1 / 25)"
  by (simp_all add: fl_thresholds)

lemma fistHand_facts: "length fistHand = 21" "isFist fistHand" "isPinching fistHand"
  by (simp_all add: fistHand_def isFist_iff isPinching_def dist_pinch_same thresholds_pos)

lemma fistAt_facts:
  "length (fistAt x y) = 21" "isFist (fistAt x y)" "isPinching (fistAt x y)"
  "mappedWristX cv (fistAt x y) = dmul (dsub 1 x) (canvasWidth cv)"
  "mappedWristY cv (fistAt x y) = dmul y (canvasHeight cv)"
  "mappedX cv (fistAt x y) = dmul (dsub 1 x) (canvasWidth cv)"
  "mappedY cv (fistAt x y) = dmul y (canvasHeight cv)"
  by (simp_all add: fistAt_def mappedWristX_def mappedWristY_def mappedX_def mappedY_def
      isFist_iff isPinching_def dist_pinch_same thresholds_pos)

lemma openHand_facts: "length openHand = 21" "\<not> isFist openHand" "\<not> isPinching openHand"
proof -
  show "length openHand = 21" by (simp add: openHand_def)
  have "getDistance (openHand ! 8) (openHand ! 0) = 3 / 8"
    by (rule getDistance_level) (simp_all add: openHand_def)
  then show "\<not> isFist openHand" using isFist_index [of openHand] by (auto simp: fl_thresholds)
  have "dist_pinch openHand = 1 / 4"
    by (simp add: dist_pinch_def openHand_def dsub_def dpow2_def dadd_def dsqrt_def fl_minus
        fl_quarter sqrt_sixteenth)
  then show "\<not> isPinching openHand" unfolding isPinching_def by (simp add: fl_thresholds)
qed

lemma pinchHand_facts:
  "length pinchHand = 21" "pinchHand ! 4 = Point 0.5 0.5" "pinchHand ! 8 = Point 0.5 (fl 0.503)"
  "\<not> isFist pinchHand"
proof -
  show "length pinchHand = 21" "pinchHand ! 4 = Point 0.5 0.5"
    "pinchHand ! 8 = Point 0.5 (fl 0.503)"
    by (simp_all add: pinchHand_def)
  have "getDistance (pinchHand ! 8) (pinchHand ! 0) = 3 / 8"
    by (rule getDistance_level) (simp_all add: pinchHand_def)
  then show "\<not> isFist pinchHand" using isFist_index [of pinchHand] by (auto simp: fl_thresholds)
qed

lemma shift_example: "shiftAll 1 0 {''3,4''} = {''4,4''}"
  by code_simp

lemma voxelKey_16_9: "voxelKey 16 9 = ''16,9''"
  by code_simp

lemma stampHand_facts:
  "length stampHand = 21" "\<not> isFist stampHand" "isPinching stampHand"
  "pinchKey canvas1280 stampHand = ''3,4''"
proof -
  have k: "voxelKey 3 4 = ''3,4''" by code_simp
  show "length stampHand = 21" by (simp add: stampHand_def)
  have "getDistance (stampHand ! 8) (stampHand ! 0) = 3 / 8"
    by (rule getDistance_level) (simp_all add: stampHand_def)
  then show "\<not> isFist stampHand" using isFist_index [of stampHand] by (auto simp: fl_thresholds)
  show "isPinching stampHand"
    by (simp add: isPinching_def dist_pinch_same stampHand_def thresholds_pos)
  show "pinchKey canvas1280 stampHand = ''3,4''"
    by (simp add: pinchKey_def mappedX_def mappedY_def stampHand_def canvas1280_def gridSize_def
        dsub_def dmul_def ddiv_def fl_samples fl_quarter k)
qed

lemma dwellHand_facts:
  "length dwellHand = 21" "isFist dwellHand" "\<not> isPinching dwellHand"
  "mappedWristX canvas1280 dwellHand = 640" "mappedWristY canvas1280 dwellHand = 360"
proof -
  show "length dwellHand = 21" by (simp add: dwellHand_def)
  show "isFist dwellHand" by (simp add: isFist_iff dwellHand_def thresholds_pos)
  have "dist_pinch dwellHand = 1 / 4"
    by (simp add: dist_pinch_def dwellHand_def dsub_def dpow2_def dadd_def dsqrt_def fl_minus
        fl_quarter sqrt_sixteenth)
  then show "\<not> isPinching dwellHand" unfolding isPinching_def by (simp add: fl_thresholds)
  show "mappedWristX canvas1280 dwellHand = 640" "mappedWristY canvas1280 dwellHand = 360"
    by (simp_all add: mappedWristX_def mappedWristY_def dwellHand_def canvas1280_def
        dsub_def dmul_def fl_samples)
qed

lemma grabState_reachable:
  "runFrames (Some canvas1280) initialState
     [Some [(stampHand, 50)], Some [(dwellHand, 100)], Some [(dwellHand, 1200)]]
   = (None, grabState)"
  by (simp add: onResults_def processHand_def stampHand_facts dwellHand_facts fistLogic_def
      pinchLogic_def grabLogic_def add_def initialState_def grabState_def)

lemma fl_503: "fl 0.503 = 4530621225134719 / 2 ^ 53"
  by (subst fl_eval [of "- 1"]; simp add: roundTiesToEven_def)

lemma pinch_dy: "dsub 0.5 (4530621225134719 / 2 ^ 53) = - (27021597764223 / 2 ^ 53)"
  unfolding dsub_def by (subst fl_eval [of "- 9"]; simp add: roundTiesToEven_def)

lemma pinch_sq: "dpow2 (- (27021597764223 / 2 ^ 53)) = 664082786653545 / 2 ^ 66"
  unfolding dpow2_def by (subst fl_eval [of "- 17"]; simp add: roundTiesToEven_def)

lemma pinch_sum: "dadd 0 (664082786653545 / 2 ^ 66) = 664082786653545 / 2 ^ 66"
  unfolding dadd_def using fl_dyadic [of 664082786653545 66] by simp

lemma pinch_root: "dsqrt (664082786653545 / 2 ^ 66) = 27021597764223 / 2 ^ 53"
proof -
  have "dsqrt (664082786653545 / 2 ^ 66) = of_int 6917529027641088 * 2 powi (- 61)"
    by (rule dsqrt_eval [of "- 9"]) (simp_all add: power2_eq_square)
  then show ?thesis by simp
qed

lemma pinch_my: "dmul (4530621225134719 / 2 ^ 53) 720 = 6371186097845699 / 2 ^ 44"
  unfolding dmul_def by (subst fl_eval [of 8]; simp add: roundTiesToEven_def)

lemma pinch_gy: "ddiv (6371186097845699 / 2 ^ 44) 40 = 5096948878276559 / 2 ^ 49"
  unfolding ddiv_def by (subst fl_eval [of 3]; simp add: roundTiesToEven_def)

text \<open>
  Rounding at the one-cell threshold. With the wrist first at \<open>x = 0.82\<close> and then at
  \<open>x = 0.78875\<close> the exact pixel distance is 40, but the doubles are
  \<open>230.40000000000006\<close> and \<open>270.4000000000001\<close>, their difference is
  \<open>40.00000000000003\<close>, and the frame counts as one that crossed.
\<close>

lemma edge_anchor: "mappedWristX canvas1280 (fistAt (fl 0.82) 0.5) = 8106479329266895 / 2 ^ 45"
proof -
  have a: "fl 0.82 = 7385903388887613 / 2 ^ 53"
    by (subst fl_eval [of "- 1"]; simp add: roundTiesToEven_def)
  have b: "dsub 1 (7385903388887613 / 2 ^ 53) = 1621295865853379 / 2 ^ 53"
    unfolding dsub_def by (subst fl_eval [of "- 3"]; simp add: roundTiesToEven_def)
  have c: "dmul (1621295865853379 / 2 ^ 53) 1280 = 8106479329266895 / 2 ^ 45"
    unfolding dmul_def by (subst fl_eval [of 7]; simp add: roundTiesToEven_def)
  show ?thesis unfolding fistAt_facts a b canvas1280_def using c by simp
qed

lemma edge_current: "mappedWristX canvas1280 (fistAt (fl 0.78875) 0.5) = 594615888301261 / 2 ^ 41"
proof -
  have a: "fl 0.78875 = 7104428412176957 / 2 ^ 53"
    by (subst fl_eval [of "- 1"]; simp add: roundTiesToEven_def)
  have b: "dsub 1 (7104428412176957 / 2 ^ 53) = 1902770842564035 / 2 ^ 53"
    unfolding dsub_def by (subst fl_eval [of "- 3"]; simp add: roundTiesToEven_def)
  have c: "dmul (1902770842564035 / 2 ^ 53) 1280 = 594615888301261 / 2 ^ 41"
    unfolding dmul_def by (subst fl_eval [of 8]; simp add: roundTiesToEven_def)
  show ?thesis unfolding fistAt_facts a b canvas1280_def using c by simp
qed

lemma edge_delta:
  "dsub (594615888301261 / 2 ^ 41) (8106479329266895 / 2 ^ 45) = 1407374883553281 / 2 ^ 45"
  unfolding dsub_def by (subst fl_eval [of 5]; simp add: roundTiesToEven_def)

lemma edge_shift: "round (ddiv (1407374883553281 / 2 ^ 45) gridSize) = 1"
proof -
  have d: "ddiv (1407374883553281 / 2 ^ 45) 40 = 4503599627370499 / 2 ^ 52"
    unfolding ddiv_def by (subst fl_eval [of 0]; simp add: roundTiesToEven_def)
  show ?thesis unfolding gridSize_def d round_def by simp
qed

lemma level_at_360: "mappedWristY canvas1280 (fistAt x 0.5) = 360" "dsub 360 360 = 0"
  "round (ddiv 0 gridSize) = 0"
  by (simp_all add: fistAt_facts canvas1280_def dmul_def dsub_def ddiv_def fl_samples)

section \<open>The claims\<close>

text \<open>
  Claim C1 says that a frame whose landmarks satisfy the fist condition and the pinch
  condition together never stamps, also before the grab is confirmed. The callback
  gates the stamp on \<open>isGrabbingRef\<close>, not on the fist shape: from the initial
  state such a frame starts the dwell timer and stamps the cell under the index tip.
\<close>

theorem fist_and_pinch_stamps_counterexample:
  "isFist fistHand \<and> isPinching fistHand \<and> \<not> isGrabbingRef initialState
   \<and> voxelsRef initialState = {}
   \<and> onResults (Some canvas1280) initialState (Some [(fistHand, 100)])
       = (None, \<lparr>voxelsRef = {''16,9''}, fistStartTimeRef = Some 100, isGrabbingRef = False,
                 lastHandPosRef = None\<rparr>)"
proof -
  have k: "pinchKey canvas1280 fistHand = ''16,9''"
    by (simp add: pinchKey_def mappedX_def mappedY_def fistHand_def canvas1280_def gridSize_def
        dsub_def dmul_def ddiv_def fl_samples voxelKey_16_9)
  show ?thesis
    by (simp add: fistHand_facts initialState_def onResults_def processHand_def fistLogic_def
        pinchLogic_def add_def k)
qed

text \<open>
  Claim C1, as amended. On a frame whose landmarks satisfy both conditions the fist
  branch of the dwell logic runs, so the timer is set afterwards. No key is stamped
  when the hand is in the confirmed grabbing state after that update (the voxel set is
  then unchanged or shifted as a whole); when it is not yet grabbing, the cell under
  the index tip is stamped.
\<close>

theorem grab_precedence:
  assumes "21 \<le> length lm" and "isFist lm" and "isPinching lm"
  shows "\<exists>s'. onResults (Some cv) s (Some [(lm, now)]) = (None, s')
           \<and> fistStartTimeRef s' \<noteq> None
           \<and> isGrabbingRef s' = isGrabbingRef (fistLogic now True s)
           \<and> (if isGrabbingRef s'
               then voxelsRef s' = voxelsRef s
                    \<or> (\<exists>shiftX shiftY. voxelsRef s' = shiftAll shiftX shiftY (voxelsRef s))
               else voxelsRef s' = add (pinchKey cv lm) (voxelsRef s))"
proof -
  let ?s1 = "fistLogic now True s"
  let ?p = "Point (mappedWristX cv lm) (mappedWristY cv lm)"
  show ?thesis
  proof (cases "isGrabbingRef ?s1")
    case True
    with assms have "onResults (Some cv) s (Some [(lm, now)]) = (None, grabLogic ?p ?s1)"
      by (simp add: onResults_def processHand_def Let_def)
    moreover have "voxelsRef (grabLogic ?p ?s1) = voxelsRef s
        \<or> (\<exists>shiftX shiftY. voxelsRef (grabLogic ?p ?s1) = shiftAll shiftX shiftY (voxelsRef s))"
      using grabLogic_voxels [of ?p ?s1] by simp
    ultimately show ?thesis using True fistLogic_started [of now s] by auto
  next
    case False
    with assms have "onResults (Some cv) s (Some [(lm, now)]) = (None, pinchLogic cv lm ?s1)"
      by (simp add: onResults_def processHand_def Let_def)
    then show ?thesis using False fistLogic_started [of now s] by auto
  qed
qed

theorem grab_precedence_witness:
  "21 \<le> length fistHand \<and> isFist fistHand \<and> isPinching fistHand
   \<and> (\<exists>s'. onResults (Some canvas1280) grabState (Some [(fistHand, 5000)]) = (None, s')
          \<and> isGrabbingRef s'
          \<and> (voxelsRef s' = {''3,4''}
              \<or> (\<exists>shiftX shiftY. voxelsRef s' = shiftAll shiftX shiftY {''3,4''})))"
proof -
  have h: "21 \<le> length fistHand" "isFist fistHand" "isPinching fistHand"
    by (simp_all add: fistHand_facts)
  have g: "isGrabbingRef (fistLogic 5000 True grabState)"
    by (simp add: fistLogic_def grabState_def)
  have v: "voxelsRef grabState = {''3,4''}" by (simp add: grabState_def)
  from grab_precedence [OF h, of canvas1280 grabState 5000]
  obtain s' where r: "onResults (Some canvas1280) grabState (Some [(fistHand, 5000)]) = (None, s')"
    and e: "isGrabbingRef s' = isGrabbingRef (fistLogic 5000 True grabState)"
    and c: "if isGrabbingRef s'
            then voxelsRef s' = voxelsRef grabState
                 \<or> (\<exists>shiftX shiftY. voxelsRef s' = shiftAll shiftX shiftY (voxelsRef grabState))
            else voxelsRef s' = add (pinchKey canvas1280 fistHand) (voxelsRef grabState)"
    by blast
  from e g have gs: "isGrabbingRef s'" by simp
  with c have "voxelsRef s' = voxelsRef grabState
      \<or> (\<exists>shiftX shiftY. voxelsRef s' = shiftAll shiftX shiftY (voxelsRef grabState))"
    by (simp only: if_True)
  then have d: "voxelsRef s' = {''3,4''}
      \<or> (\<exists>shiftX shiftY. voxelsRef s' = shiftAll shiftX shiftY {''3,4''})"
    by (simp only: v)
  have "\<exists>s'. onResults (Some canvas1280) grabState (Some [(fistHand, 5000)]) = (None, s')
          \<and> isGrabbingRef s'
          \<and> (voxelsRef s' = {''3,4''}
              \<or> (\<exists>shiftX shiftY. voxelsRef s' = shiftAll shiftX shiftY {''3,4''}))"
    by (intro exI conjI) (rule r gs d)+
  with h show ?thesis by (intro conjI)
qed

text \<open>
  Claim C2 says that a frame with no hands resets the dwell and grab state as the
  not-fist branch does. The guard of line 97 skips the whole loop for such a frame, so
  nothing is reset: a grab in progress stays in progress, where the not-fist branch
  would have cleared all three references.
\<close>

theorem no_hands_keeps_state_counterexample:
  "isGrabbingRef (snd (onResults (Some canvas1280) grabState (Some [])))
   \<and> fistStartTimeRef (snd (onResults (Some canvas1280) grabState (Some []))) = Some 100
   \<and> lastHandPosRef (snd (onResults (Some canvas1280) grabState (Some []))) = Some (Point 640 360)
   \<and> \<not> isGrabbingRef (fistLogic 5000 False grabState)
   \<and> fistStartTimeRef (fistLogic 5000 False grabState) = None
   \<and> lastHandPosRef (fistLogic 5000 False grabState) = None"
  by (simp add: onResults_def grabState_def fistLogic_def)

text \<open>
  Claim C2, as amended. A frame with zero detected hands (an empty or an undefined
  \<open>multiHandLandmarks\<close>) changes nothing: the voxel set, \<open>fistStartTimeRef\<close>,
  \<open>isGrabbingRef\<close> and \<open>lastHandPosRef\<close> are all as before.
\<close>

theorem no_hands_noop:
  "onResults canvasElement s (Some []) = (None, s) \<and> onResults canvasElement s None = (None, s)"
  by (simp add: onResults_def split: option.split)

theorem no_hands_noop_witness:
  "onResults (Some canvas1280) grabState (Some []) = (None, grabState)
   \<and> onResults (Some canvas1280) grabState None = (None, grabState)"
  using no_hands_noop [of "Some canvas1280" grabState] by simp

text \<open>
  Claim C3 says that each of two hands in a frame has a dwell and grab state of its
  own, so that what happens for one hand does not depend on the other being there.
  The three references exist once. During a grab, a frame with an open hand followed
  by a fist ends not grabbing with a fresh timer, while the same fist alone keeps the
  grab and the old timer.
\<close>

theorem hands_not_independent_counterexample:
  "\<not> isGrabbingRef (snd (onResults (Some canvas1280) grabState
                          (Some [(openHand, 5000), (fistHand, 5000)])))
   \<and> fistStartTimeRef (snd (onResults (Some canvas1280) grabState
                          (Some [(openHand, 5000), (fistHand, 5000)]))) = Some 5000
   \<and> isGrabbingRef (snd (onResults (Some canvas1280) grabState (Some [(fistHand, 5000)])))
   \<and> fistStartTimeRef (snd (onResults (Some canvas1280) grabState (Some [(fistHand, 5000)])))
       = Some 100"
  by (simp add: onResults_def processHand_def fistHand_facts openHand_facts fistLogic_def
      grabState_def Let_def pinchLogic_def)

text \<open>
  Claim C3, as amended. The hands of a frame are processed in array order against
  one state shared by all of them: the outcome of a two-hand frame is the outcome of
  the second hand alone, started in the state that the first hand alone leaves.
\<close>

theorem hands_share_state:
  "onResults (Some cv) s (Some [h1, h2]) =
     (case onResults (Some cv) s (Some [h1]) of
        (Some e, s1) \<Rightarrow> (Some e, s1)
      | (None, s1) \<Rightarrow> onResults (Some cv) s1 (Some [h2]))"
  by (cases h1; cases h2) (simp add: onResults_def split: sum.split)

theorem hands_share_state_witness:
  "onResults (Some canvas1280) grabState (Some [(openHand, 5000), (fistHand, 5000)]) =
     (case onResults (Some canvas1280) grabState (Some [(openHand, 5000)]) of
        (Some e, s1) \<Rightarrow> (Some e, s1)
      | (None, s1) \<Rightarrow> onResults (Some canvas1280) s1 (Some [(fistHand, 5000)]))"
  using hands_share_state [of canvas1280 grabState "(openHand, 5000)" "(fistHand, 5000)"] .

text \<open>
  Claim C4 measures the dwell from the first fist frame of a hold and promises the
  grab after 1000 ms of continuous fist. The callback measures from the moment the
  timer was set and clears it only when it sees a hand that is not a fist. A frame
  without hands clears nothing, so a fist that returns 4900 ms after it was last seen
  grabs on its first frame, 0 ms into the new hold. And the timer is shared by all
  hands, so an open hand listed before a fist in every frame resets it each time, and
  the fist is not grabbing after 1200 ms.
\<close>

theorem dwell_gating_counterexample:
  "isFist dwellHand \<and> \<not> isFist openHand
   \<and> runFrames (Some canvas1280) initialState
         [Some [(dwellHand, 100)], Some [], Some [(dwellHand, 5000)]]
       = (None, \<lparr>voxelsRef = {}, fistStartTimeRef = Some 100, isGrabbingRef = True,
                 lastHandPosRef = Some (Point 640 360)\<rparr>)
   \<and> runFrames (Some canvas1280) initialState
         [Some [(openHand, 100), (dwellHand, 100)], Some [(openHand, 1300), (dwellHand, 1300)]]
       = (None, \<lparr>voxelsRef = {}, fistStartTimeRef = Some 1300, isGrabbingRef = False,
                 lastHandPosRef = None\<rparr>)"
  by (simp add: onResults_def processHand_def dwellHand_facts openHand_facts fistLogic_def
      grabLogic_def initialState_def)

text \<open>
  Claim C4, as amended. Take a run of frames, some of which may show no hand, in
  which every hand that is shown is a fist, started in a state with no timer and no
  grab, and let \<open>t0\<close> be the clock reading of its first hand. After the run the timer
  still holds \<open>t0\<close>, and the hand is grabbing exactly when some later hand of the run
  was sampled more than 1000 ms after \<open>t0\<close>. So no number of frames sampled within
  1000 ms of \<open>t0\<close> sets the grab, and one frame sampled later does, whatever was
  sampled in between; the time runs from the first fist after the timer was last
  cleared, across frames without hands. The reading \<open>t0\<close> is not \<open>0\<close>: \<open>Date.now()\<close>
  counts milliseconds since 1970, and the code tests the timer for truthiness.
\<close>

theorem dwell_gating:
  assumes "fistStartTimeRef s = None" and "\<not> isGrabbingRef s"
    and "samples frames = (lm0, t0) # rest"
    and "\<forall>(lm, t)\<in>set (samples frames). 21 \<le> length lm \<and> isFist lm"
    and "t0 \<noteq> 0"
  shows "\<exists>s'. runFrames (Some cv) s frames = (None, s')
           \<and> fistStartTimeRef s' = Some t0
           \<and> (isGrabbingRef s' \<longleftrightarrow> (\<exists>(lm, t)\<in>set rest. t - t0 > 1000))"
  using dwell_fresh [of s t0 lm0 rest cv] assms
  by (simp add: runFrames_samples)

theorem dwell_gating_witness:
  "fistStartTimeRef initialState = None \<and> \<not> isGrabbingRef initialState
   \<and> 21 \<le> length fistHand \<and> isFist fistHand
   \<and> (\<exists>s'. runFrames (Some canvas1280) initialState
               [Some [(fistHand, 100)], Some [(fistHand, 600)], Some [(fistHand, 1100)]] = (None, s')
            \<and> fistStartTimeRef s' = Some 100 \<and> \<not> isGrabbingRef s')
   \<and> (\<exists>s'. runFrames (Some canvas1280) initialState
               [Some [(fistHand, 100)], None, Some [(fistHand, 1101)]] = (None, s')
            \<and> fistStartTimeRef s' = Some 100 \<and> isGrabbingRef s')"
proof -
  have init: "fistStartTimeRef initialState = None" "\<not> isGrabbingRef initialState"
    by (simp_all add: initialState_def)
  have a: "samples [Some [(fistHand, 100)], Some [(fistHand, 600)], Some [(fistHand, 1100)]]
             = (fistHand, 100) # [(fistHand, 600), (fistHand, 1100)]"
    by (simp add: samples_def)
  have b: "samples [Some [(fistHand, 100)], None, Some [(fistHand, 1101)]]
             = (fistHand, 100) # [(fistHand, 1101)]"
    by (simp add: samples_def)
  have "\<exists>s'. runFrames (Some canvas1280) initialState
               [Some [(fistHand, 100)], Some [(fistHand, 600)], Some [(fistHand, 1100)]] = (None, s')
            \<and> fistStartTimeRef s' = Some 100 \<and> \<not> isGrabbingRef s'"
    using dwell_gating [OF init a, of canvas1280] by (simp add: a fistHand_facts)
  moreover have "\<exists>s'. runFrames (Some canvas1280) initialState
               [Some [(fistHand, 100)], None, Some [(fistHand, 1101)]] = (None, s')
            \<and> fistStartTimeRef s' = Some 100 \<and> isGrabbingRef s'"
    using dwell_gating [OF init b, of canvas1280] by (simp add: b fistHand_facts)
  ultimately show ?thesis using init by (simp add: fistHand_facts)
qed



text \<open>
  Claim C6. The delta of a frame is what the callback computes: the wrist pixel
  position minus the anchor, each coordinate rounded to a double. While grabbing with
  anchor \<open>a\<close>, frames of fist hands whose delta is at most one cell in both coordinates
  change neither the anchor nor the voxel set, however many they are. The first frame
  whose delta is more than one cell in some coordinate applies one shift by the
  rounded cell counts of that delta, which is not the zero shift, and moves the anchor
  to the wrist.
\<close>

theorem sub_cell_hysteresis:
  assumes "isGrabbingRef s" and "lastHandPosRef s = Some a"
    and "\<forall>(lm, t)\<in>set (samples frames). 21 \<le> length lm \<and> isFist lm
            \<and> \<bar>dsub (mappedWristX cv lm) (px a)\<bar> \<le> gridSize \<and> \<bar>dsub (mappedWristY cv lm) (py a)\<bar> \<le> gridSize"
    and "21 \<le> length lmc" and "isFist lmc"
    and "\<bar>dsub (mappedWristX cv lmc) (px a)\<bar> > gridSize \<or> \<bar>dsub (mappedWristY cv lmc) (py a)\<bar> > gridSize"
  shows "\<exists>s1 s2. runFrames (Some cv) s frames = (None, s1)
           \<and> lastHandPosRef s1 = Some a \<and> voxelsRef s1 = voxelsRef s
           \<and> onResults (Some cv) s1 (Some [(lmc, tc)]) = (None, s2)
           \<and> voxelsRef s2 =
               shiftAll (round (ddiv (dsub (mappedWristX cv lmc) (px a)) gridSize))
                        (round (ddiv (dsub (mappedWristY cv lmc) (py a)) gridSize)) (voxelsRef s)
           \<and> lastHandPosRef s2 = Some (Point (mappedWristX cv lmc) (mappedWristY cv lmc))
           \<and> (round (ddiv (dsub (mappedWristX cv lmc) (px a)) gridSize),
                round (ddiv (dsub (mappedWristY cv lmc) (py a)) gridSize)) \<noteq> (0, 0)"
proof -
  from grab_sub_run [OF assms(1,2,3)]
  obtain s1 where s1: "runFrames (Some cv) s frames = (None, s1)" "isGrabbingRef s1"
    "lastHandPosRef s1 = Some a" "voxelsRef s1 = voxelsRef s"
    by (auto simp: runFrames_samples)
  from processHand_grab_cross [OF assms(4,5) s1(2,3) assms(6), of tc]
  obtain s2 where s2: "processHand cv tc s1 lmc = Inr s2"
    "lastHandPosRef s2 = Some (Point (mappedWristX cv lmc) (mappedWristY cv lmc))"
    "voxelsRef s2 =
       shiftAll (round (ddiv (dsub (mappedWristX cv lmc) (px a)) gridSize))
                (round (ddiv (dsub (mappedWristY cv lmc) (py a)) gridSize)) (voxelsRef s1)"
    by blast
  from s2(1) have run2: "onResults (Some cv) s1 (Some [(lmc, tc)]) = (None, s2)"
    by (simp add: onResults_def)
  from assms(6) have "round (ddiv (dsub (mappedWristX cv lmc) (px a)) gridSize) \<noteq> 0
      \<or> round (ddiv (dsub (mappedWristY cv lmc) (py a)) gridSize) \<noteq> 0"
    using round_crossed by blast
  with s1 s2 run2 show ?thesis by auto
qed

theorem sub_cell_hysteresis_witness:
  "isGrabbingRef grabState \<and> lastHandPosRef grabState = Some (Point 640 360)
   \<and> (\<exists>s1 s2. runFrames (Some canvas1280) grabState
                   [Some [(fistAt 0.484375 0.5, 2000)], Some [(fistAt 0.46875 0.5, 2040)]]
                 = (None, s1)
          \<and> lastHandPosRef s1 = Some (Point 640 360) \<and> voxelsRef s1 = {''3,4''}
          \<and> onResults (Some canvas1280) s1 (Some [(fistAt 0.4609375 0.5, 2080)]) = (None, s2)
          \<and> voxelsRef s2 = {''4,4''}
          \<and> lastHandPosRef s2 = Some (Point 690 360))
   \<and> (\<exists>s2. onResults (Some canvas1280)
                 (grabState\<lparr>lastHandPosRef := Some (Point (8106479329266895 / 2 ^ 45) 360)\<rparr>)
                 (Some [(fistAt (fl 0.78875) 0.5, 2080)]) = (None, s2)
          \<and> voxelsRef s2 = {''4,4''}
          \<and> lastHandPosRef s2 = Some (Point (594615888301261 / 2 ^ 41) 360))"
proof -
  have g: "isGrabbingRef grabState" and a: "lastHandPosRef grabState = Some (Point 640 360)"
    and v: "voxelsRef grabState = {''3,4''}"
    by (simp_all add: grabState_def)
  have sub: "\<forall>(lm, t)\<in>set (samples [Some [(fistAt 0.484375 0.5, 2000)],
                                      Some [(fistAt 0.46875 0.5, 2040)]]).
      21 \<le> length lm \<and> isFist lm
      \<and> \<bar>dsub (mappedWristX canvas1280 lm) (px (Point 640 360))\<bar> \<le> gridSize
      \<and> \<bar>dsub (mappedWristY canvas1280 lm) (py (Point 640 360))\<bar> \<le> gridSize"
    by (simp add: samples_def fistAt_facts canvas1280_def gridSize_def dsub_def dmul_def
        fl_samples)
  have len: "21 \<le> length (fistAt x 0.5)" and fist: "isFist (fistAt x 0.5)" for x
    by (simp_all add: fistAt_facts)
  have mx: "mappedWristX canvas1280 (fistAt 0.4609375 0.5) = 690"
    by (simp add: fistAt_facts canvas1280_def dsub_def dmul_def fl_samples)
  have dx: "dsub 690 640 = 50" by (simp add: dsub_def fl_samples)
  have rx: "round (ddiv 50 gridSize) = 1"
    by (simp add: ddiv_def gridSize_def fl_samples round_def)
  have cross: "\<bar>dsub (mappedWristX canvas1280 (fistAt 0.4609375 0.5)) (px (Point 640 360))\<bar>
        > gridSize
      \<or> \<bar>dsub (mappedWristY canvas1280 (fistAt 0.4609375 0.5)) (py (Point 640 360))\<bar>
        > gridSize"
    unfolding mx point.sel dx by (simp add: gridSize_def)
  from sub_cell_hysteresis [OF g a sub len fist cross, of 2080]
  obtain s1 s2 where r1: "runFrames (Some canvas1280) grabState
        [Some [(fistAt 0.484375 0.5, 2000)], Some [(fistAt 0.46875 0.5, 2040)]] = (None, s1)"
    and a1: "lastHandPosRef s1 = Some (Point 640 360)"
    and v1: "voxelsRef s1 = voxelsRef grabState"
    and r2: "onResults (Some canvas1280) s1 (Some [(fistAt 0.4609375 0.5, 2080)]) = (None, s2)"
    and v2: "voxelsRef s2 =
      shiftAll
        (round (ddiv (dsub (mappedWristX canvas1280 (fistAt 0.4609375 0.5)) (px (Point 640 360)))
           gridSize))
        (round (ddiv (dsub (mappedWristY canvas1280 (fistAt 0.4609375 0.5)) (py (Point 640 360)))
           gridSize))
        (voxelsRef grabState)"
    and a2: "lastHandPosRef s2 =
      Some (Point (mappedWristX canvas1280 (fistAt 0.4609375 0.5))
                  (mappedWristY canvas1280 (fistAt 0.4609375 0.5)))"
    by blast
  from v1 have v1': "voxelsRef s1 = {''3,4''}" by (simp only: v)
  from v2 have v2': "voxelsRef s2 = {''4,4''}"
    by (simp only: mx level_at_360 point.sel dx rx v shift_example)
  from a2 have a2': "lastHandPosRef s2 = Some (Point 690 360)" by (simp only: mx level_at_360)
  have first: "\<exists>s1 s2. runFrames (Some canvas1280) grabState
                   [Some [(fistAt 0.484375 0.5, 2000)], Some [(fistAt 0.46875 0.5, 2040)]]
                 = (None, s1)
          \<and> lastHandPosRef s1 = Some (Point 640 360) \<and> voxelsRef s1 = {''3,4''}
          \<and> onResults (Some canvas1280) s1 (Some [(fistAt 0.4609375 0.5, 2080)]) = (None, s2)
          \<and> voxelsRef s2 = {''4,4''}
          \<and> lastHandPosRef s2 = Some (Point 690 360)"
    by (intro exI conjI) (rule r1 a1 v1' r2 v2' a2')+
  let ?e = "grabState\<lparr>lastHandPosRef := Some (Point (8106479329266895 / 2 ^ 45) 360)\<rparr>"
  have ge: "isGrabbingRef ?e"
    and ae: "lastHandPosRef ?e = Some (Point (8106479329266895 / 2 ^ 45) 360)"
    and ve: "voxelsRef ?e = {''3,4''}"
    by (simp_all add: grabState_def)
  have none: "\<forall>(lm, t)\<in>set (samples []).
      21 \<le> length lm \<and> isFist lm
      \<and> \<bar>dsub (mappedWristX canvas1280 lm) (px (Point (8106479329266895 / 2 ^ 45) 360))\<bar>
            \<le> gridSize
      \<and> \<bar>dsub (mappedWristY canvas1280 lm) (py (Point (8106479329266895 / 2 ^ 45) 360))\<bar>
            \<le> gridSize"
    by (simp add: samples_def)
  have crosse:
    "\<bar>dsub (mappedWristX canvas1280 (fistAt (fl 0.78875) 0.5))
          (px (Point (8106479329266895 / 2 ^ 45) 360))\<bar> > gridSize
     \<or> \<bar>dsub (mappedWristY canvas1280 (fistAt (fl 0.78875) 0.5))
          (py (Point (8106479329266895 / 2 ^ 45) 360))\<bar> > gridSize"
    unfolding edge_current point.sel edge_delta by (simp add: gridSize_def)
  from sub_cell_hysteresis [OF ge ae none len fist crosse, of 2080]
  obtain t1 t2 where q1: "runFrames (Some canvas1280) ?e [] = (None, t1)"
    and q2: "onResults (Some canvas1280) t1 (Some [(fistAt (fl 0.78875) 0.5, 2080)]) = (None, t2)"
    and w2: "voxelsRef t2 =
      shiftAll
        (round (ddiv (dsub (mappedWristX canvas1280 (fistAt (fl 0.78875) 0.5))
                           (px (Point (8106479329266895 / 2 ^ 45) 360))) gridSize))
        (round (ddiv (dsub (mappedWristY canvas1280 (fistAt (fl 0.78875) 0.5))
                           (py (Point (8106479329266895 / 2 ^ 45) 360))) gridSize))
        (voxelsRef ?e)"
    and b2: "lastHandPosRef t2 =
      Some (Point (mappedWristX canvas1280 (fistAt (fl 0.78875) 0.5))
                  (mappedWristY canvas1280 (fistAt (fl 0.78875) 0.5)))"
    by blast
  from q1 have t1: "t1 = ?e" by simp
  from w2 have w2': "voxelsRef t2 = {''4,4''}"
    by (simp only: edge_current level_at_360 point.sel edge_delta edge_shift ve shift_example)
  from b2 have b2': "lastHandPosRef t2 = Some (Point (594615888301261 / 2 ^ 41) 360)"
    by (simp only: edge_current level_at_360)
  have second: "\<exists>s2. onResults (Some canvas1280) ?e
                 (Some [(fistAt (fl 0.78875) 0.5, 2080)]) = (None, s2)
          \<and> voxelsRef s2 = {''4,4''}
          \<and> lastHandPosRef s2 = Some (Point (594615888301261 / 2 ^ 41) 360)"
    by (intro exI conjI) (rule q2 [unfolded t1] w2' b2')+
  from g a first second show ?thesis by (intro conjI)
qed

text \<open>
  Claim C7. On every voxel set (a set of keys of integer cells), shifting by
  \<open>(dx1, dy1)\<close> and then by \<open>(dx2, dy2)\<close> gives the same set as one shift by
  \<open>(dx1 + dx2, dy1 + dy2)\<close>; shifting by \<open>(0, 0)\<close> changes nothing; and a shift
  replaces the key of every cell \<open>(gx, gy)\<close> by the key of \<open>(gx + dx, gy + dy)\<close>, the
  whole set at once.
\<close>

theorem shiftAll_group_action:
  assumes "\<forall>key\<in>vox. wellFormedKey key"
  shows "shiftAll dx2 dy2 (shiftAll dx1 dy1 vox) = shiftAll (dx1 + dx2) (dy1 + dy2) vox
       \<and> shiftAll 0 0 vox = vox
       \<and> shiftAll dx dy vox = {voxelKey (gx + dx) (gy + dy) |gx gy. voxelKey gx gy \<in> vox}"
  using shiftAll_compose [OF assms] shiftAll_zero [OF assms] shiftAll_cells [OF assms]
  by simp

theorem shiftAll_group_action_witness:
  "wellFormedKey ''16,9'' \<and> wellFormedKey ''-1,0''
   \<and> shiftAll 2 (- 3) (shiftAll (- 1) 1 {''16,9'', ''-1,0''}) = shiftAll 1 (- 2) {''16,9'', ''-1,0''}
   \<and> shiftAll 0 0 {''16,9'', ''-1,0''} = {''16,9'', ''-1,0''}
   \<and> shiftAll 1 (- 2) {''16,9'', ''-1,0''} = {''17,7'', ''0,-2''}"
proof -
  have wf: "\<forall>key\<in>{''16,9'', ''-1,0''}. wellFormedKey key"
    by code_simp
  have sh: "shiftAll 1 (- 2) {''16,9'', ''-1,0''} = {''17,7'', ''0,-2''}"
    by code_simp
  from shiftAll_group_action [OF wf, where ?dx1.0 = "- 1" and ?dy1.0 = 1 and ?dx2.0 = 2
      and ?dy2.0 = "- 3" and dx = 5 and dy = 5] wf sh
  show ?thesis
    by simp
qed

text \<open>
  Claim C8. Stamping a key twice gives the same set as stamping it once, and stamping
  a key that is already in the set changes nothing; the same holds for the pinch
  branch of the callback, which is where the stamp happens.
\<close>

theorem stamp_idempotent:
  "add key (add key vox) = add key vox
   \<and> (key \<in> vox \<longrightarrow> add key vox = vox)
   \<and> pinchLogic cv landmarks (pinchLogic cv landmarks s) = pinchLogic cv landmarks s
   \<and> (pinchKey cv landmarks \<in> voxelsRef s \<longrightarrow> pinchLogic cv landmarks s = s)"
  by (auto simp: add_def pinchLogic_def insert_absorb)

theorem stamp_idempotent_witness:
  "add ''16,9'' (add ''16,9'' {''1,2''}) = add ''16,9'' {''1,2''}
   \<and> ''16,9'' \<in> {''16,9'', ''1,2''} \<and> add ''16,9'' {''16,9'', ''1,2''} = {''16,9'', ''1,2''}"
  using stamp_idempotent [of "''16,9''" "{''1,2''}"]
    stamp_idempotent [of "''16,9''" "{''16,9'', ''1,2''}"]
  by simp

text \<open>
  Claim C9. The thumb tip is at \<open>(0.50, 0.50)\<close> and the index tip at
  \<open>(0.50, 0.503)\<close>, the doubles that these literals denote, on the 1280 by 720
  canvas. The pinch distance, measured on the landmarks as delivered, is the double
  \<open>0.0030000000000000027\<close>, within \<open>10^(-17)\<close> of \<open>0.003\<close> and below the threshold;
  the index tip maps to the pixel \<open>(640, 362.16)\<close>, the second coordinate being a
  double within \<open>10^(-13)\<close> of \<open>362.16\<close>; the cell is \<open>(16, 9)\<close>, and a hand that is
  not grabbing stamps the key \<open>"16,9"\<close>.
\<close>

theorem pinch_scenario:
  assumes "21 \<le> length lm" and "lm ! 4 = Point 0.5 0.5" and "lm ! 8 = Point 0.5 (fl 0.503)"
    and "onResults (Some canvas1280) s (Some [(lm, now)]) = (None, s')"
    and "\<not> isGrabbingRef s'"
  shows "dist_pinch lm = 27021597764223 / 2 ^ 53 \<and> \<bar>dist_pinch lm - 0.003\<bar> < 1 / 10 ^ 17
       \<and> isPinching lm
       \<and> mappedX canvas1280 lm = 640
       \<and> mappedY canvas1280 lm = 6371186097845699 / 2 ^ 44
       \<and> \<bar>mappedY canvas1280 lm - 362.16\<bar> < 1 / 10 ^ 13
       \<and> \<lfloor>ddiv (mappedX canvas1280 lm) gridSize\<rfloor> = 16
       \<and> \<lfloor>ddiv (mappedY canvas1280 lm) gridSize\<rfloor> = 9
       \<and> pinchKey canvas1280 lm = ''16,9''
       \<and> voxelsRef s' = add ''16,9'' (voxelsRef s)"
proof -
  have h: "fl (1 / 2) = 1 / 2" "fl 640 = 640" "fl 16 = 16" by (rule fl_samples)+
  have z: "dsub 0.5 0.5 = 0" "dpow2 0 = 0" by (simp_all add: dsub_def dpow2_def)
  have d: "dist_pinch lm = 27021597764223 / 2 ^ 53"
    unfolding dist_pinch_def assms(2,3) point.sel fl_503 pinch_dy pinch_sq z pinch_sum
    by (rule pinch_root)
  have near: "\<bar>dist_pinch lm - 0.003\<bar> < 1 / 10 ^ 17" unfolding d by simp
  have pinch: "isPinching lm" unfolding isPinching_def d fl_pinchThreshold by simp
  have mx: "mappedX canvas1280 lm = 640"
    by (simp add: mappedX_def canvas1280_def assms(3) dsub_def dmul_def h)
  have my: "mappedY canvas1280 lm = 6371186097845699 / 2 ^ 44"
    unfolding mappedY_def canvas1280_def canvas.select_convs assms(3) point.sel fl_503
    by (rule pinch_my)
  have nearY: "\<bar>mappedY canvas1280 lm - 362.16\<bar> < 1 / 10 ^ 13" unfolding my by simp
  have gx: "\<lfloor>ddiv (mappedX canvas1280 lm) gridSize\<rfloor> = 16"
    unfolding mx by (simp add: ddiv_def gridSize_def h)
  have gy: "\<lfloor>ddiv (mappedY canvas1280 lm) gridSize\<rfloor> = 9"
    unfolding my gridSize_def pinch_gy by simp
  have key: "pinchKey canvas1280 lm = ''16,9''"
    unfolding pinchKey_def gx gy by (rule voxelKey_16_9)
  from assms(4) have "processHand canvas1280 now s lm = Inr s'"
    by (simp add: onResults_def split: sum.splits)
  from not_grabbing_after [OF assms(1) this assms(5)] pinch
  have "s' = pinchLogic canvas1280 lm (fistLogic now (isFist lm) s)" by simp
  then have "voxelsRef s' = add ''16,9'' (voxelsRef s)" by (simp add: key)
  with d near pinch mx my nearY gx gy key show ?thesis by (intro conjI)
qed

theorem pinch_scenario_witness:
  "21 \<le> length pinchHand \<and> pinchHand ! 4 = Point 0.5 0.5
   \<and> pinchHand ! 8 = Point 0.5 (fl 0.503)
   \<and> onResults (Some canvas1280) initialState (Some [(pinchHand, 100)])
       = (None, initialState\<lparr>voxelsRef := {''16,9''}\<rparr>)
   \<and> \<not> isGrabbingRef (initialState\<lparr>voxelsRef := {''16,9''}\<rparr>)
   \<and> dist_pinch pinchHand = 27021597764223 / 2 ^ 53 \<and> isPinching pinchHand
   \<and> pinchKey canvas1280 pinchHand = ''16,9''
   \<and> voxelsRef (initialState\<lparr>voxelsRef := {''16,9''}\<rparr>) = add ''16,9'' (voxelsRef initialState)"
proof -
  have l: "21 \<le> length pinchHand" by (simp add: pinchHand_facts)
  have t: "pinchHand ! 4 = Point 0.5 0.5" and i: "pinchHand ! 8 = Point 0.5 (fl 0.503)"
    by (rule pinchHand_facts)+
  have ng: "\<not> isGrabbingRef (initialState\<lparr>voxelsRef := {''16,9''}\<rparr>)"
    by (simp add: initialState_def)
  have nf: "\<not> isFist pinchHand" by (rule pinchHand_facts)
  have step: "processHand canvas1280 100 initialState pinchHand =
      (if isPinching pinchHand
       then Inr (pinchLogic canvas1280 pinchHand initialState) else Inr initialState)"
    using l nf by (simp add: processHand_def fistLogic_def initialState_def)
  obtain s' where run': "onResults (Some canvas1280) initialState (Some [(pinchHand, 100)])
      = (None, s')" and ng': "\<not> isGrabbingRef s'"
    using step by (cases "isPinching pinchHand") (simp_all add: onResults_def initialState_def)
  note sc = pinch_scenario [OF l t i run' ng']
  from sc have pinch: "isPinching pinchHand" and key: "pinchKey canvas1280 pinchHand = ''16,9''"
    and d: "dist_pinch pinchHand = 27021597764223 / 2 ^ 53"
    by blast+
  from step pinch key have run: "onResults (Some canvas1280) initialState (Some [(pinchHand, 100)])
       = (None, initialState\<lparr>voxelsRef := {''16,9''}\<rparr>)"
    by (simp add: onResults_def pinchLogic_def add_def initialState_def)
  have st: "voxelsRef (initialState\<lparr>voxelsRef := {''16,9''}\<rparr>)
      = add ''16,9'' (voxelsRef initialState)"
    by (simp add: add_def initialState_def)
  from l t i run ng d pinch key st show ?thesis by (intro conjI)
qed

text \<open>
  Claim C10. On a voxel set whose keys are well formed, a shift by any integers
  \<open>(dx, dy)\<close> keeps the number of occupied cells: the shift is injective on the
  keys, so no two cells merge and none is lost.
\<close>

theorem shiftAll_preserves_card:
  assumes "\<forall>key\<in>vox. wellFormedKey key"
  shows "card (shiftAll dx dy vox) = card vox \<and> inj_on (shiftKey dx dy) vox"
  using shiftKey_inj_on [OF assms] by (simp add: shiftAll_def card_image)

theorem shiftAll_preserves_card_witness:
  "wellFormedKey ''3,4'' \<and> wellFormedKey ''-2,7'' \<and> wellFormedKey ''0,0''
   \<and> card (shiftAll (- 5) 2 {''3,4'', ''-2,7'', ''0,0''}) = 3"
proof -
  have wf: "\<forall>key\<in>{''3,4'', ''-2,7'', ''0,0''}. wellFormedKey key"
    by code_simp
  have "card {''3,4'', ''-2,7'', ''0,0''} = 3"
    by simp
  with shiftAll_preserves_card [OF wf, of "- 5" 2] wf show ?thesis
    by simp
qed

end
